theory Spec2Isabelle
  imports Complex_Main "HOL-Library.AList"
begin

section \<open>The embedding index store of \<open>backend/app/faiss_server.py\<close>\<close>

text \<open>
  The service keeps, for one location, an ID-mapped flat vector index file and a JSON
  metadata sidecar. The model follows \<open>faiss_server.py\<close> function by function:
  Python exceptions are values of the type \<open>error\<close>, the two files are an explicit
  state that every handler receives and returns, dictionaries are association lists in
  insertion order (\<open>AList.update\<close> overwrites in place or appends, as a Python
  \<open>dict\<close> does), and strings are lists of characters with code points below 256.

  The handlers are polymorphic in the type \<open>'f\<close> of the vector components, and the
  row normalization that \<open>faiss.normalize_L2\<close> performs is a parameter \<open>nrm\<close> of the
  upsert, applied to each row. Where a property depends on what the normalization
  computes, \<open>'f\<close> is \<open>real\<close> and \<open>nrm\<close> is \<open>normalize_L2\<close> below: the components
  are real numbers, rounding is not modelled.
\<close>

subsection \<open>Errors\<close>

text \<open>
  Exceptions that no handler of the source catches (the framework answers 500).
\<close>

datatype py_exception =
  ValueError | TypeError | OverflowError | OSError | AttributeError | ValidationError

text \<open>
  The failures of the handlers, named as the specification's taxonomy names them:
  \<^item> \<open>EmptyItems\<close>: \<open>items: list[UpsertItem] = Field(..., min_length=1)\<close> violated;
  \<^item> \<open>DuplicateId\<close>: \<open>ValueError("Duplicate ids in request")\<close> of \<open>validate_items\<close>;
  \<^item> \<open>InvalidQuery\<close>: a \<open>Query\<close> bound of \<open>get_content\<close> violated;
  \<^item> \<open>InvalidRequest\<close>: \<open>dimension: int = Field(..., gt=0)\<close> or the \<open>Literal\<close> type
    of \<open>metric\<close> violated;
  \<^item> \<open>InvalidLocation\<close>: \<open>ValueError("Provide either db_path or both base_dir and
    db_name")\<close> of \<open>validate_location\<close>;
  \<^item> \<open>MissingLocation\<close>: \<open>HTTPException(400, "Missing base_dir/db_name")\<close>;
  \<^item> \<open>InvalidName\<close>: \<open>HTTPException(400, "Invalid db_name")\<close>;
  \<^item> \<open>AlreadyExists\<close>: \<open>HTTPException(400, "Index already exists.")\<close>;
  \<^item> \<open>NotFound\<close>: \<open>HTTPException(404, ...)\<close>, the index file does not exist;
  \<^item> \<open>CorruptIndex\<close>: \<open>HTTPException(500, "Failed to load FAISS index: ...")\<close>;
  \<^item> \<open>CorruptMetadata\<close>: \<open>HTTPException(500, "Failed to read metadata: ...")\<close>;
  \<^item> \<open>DimensionMismatch d got\<close>: \<open>HTTPException(400, "Vector dimension mismatch.
    Expected {d}, got {got}.")\<close>, where \<open>got\<close> is \<open>None\<close> for the text \<open>'invalid'\<close>;
  \<^item> \<open>IOError\<close>: \<open>HTTPException(500, "Failed to save index: ...")\<close> of the upsert and
    \<open>HTTPException(500, "Failed to write index: ...")\<close> of the creation;
  \<^item> \<open>Uncaught e\<close>: an exception that leaves the handler.
\<close>

datatype error =
    EmptyItems
  | DuplicateId
  | InvalidQuery
  | InvalidRequest
  | InvalidLocation
  | MissingLocation
  | InvalidName
  | AlreadyExists
  | NotFound
  | CorruptIndex
  | CorruptMetadata
  | DimensionMismatch nat "nat option"
  | IOError
  | Uncaught py_exception

subsection \<open>Strings: \<open>str.strip\<close>, \<open>str(int)\<close>, \<open>int(str)\<close>\<close>

definition is_digit :: "char \<Rightarrow> bool" where
  "is_digit c = (let n = (of_char c :: nat) in 48 \<le> n \<and> n \<le> 57)"

definition is_alnum :: "char \<Rightarrow> bool" where
  "is_alnum c = (let n = (of_char c :: nat) in
     (48 \<le> n \<and> n \<le> 57) \<or> (65 \<le> n \<and> n \<le> 90) \<or> (97 \<le> n \<and> n \<le> 122))"

text \<open>Python's white space among the code points below 256.\<close>

definition py_isspace :: "char \<Rightarrow> bool" where
  "py_isspace c = ((of_char c :: nat) \<in> {9, 10, 11, 12, 13, 28, 29, 30, 31, 32, 133, 160})"

text \<open>\<open>s.strip(chars)\<close>, the characters to strip given as a predicate.\<close>

definition py_strip :: "(char \<Rightarrow> bool) \<Rightarrow> string \<Rightarrow> string" where
  "py_strip P s = rev (dropWhile P (rev (dropWhile P s)))"

definition digit_char :: "nat \<Rightarrow> char" where
  "digit_char n = ''0123456789'' ! n"

definition digit_val :: "char \<Rightarrow> nat" where
  "digit_val c = of_char c - 48"

fun str_nat :: "nat \<Rightarrow> string" where
  "str_nat n = (if n < 10 then [digit_char n] else str_nat (n div 10) @ [digit_char (n mod 10)])"

declare str_nat.simps [simp del]

text \<open>
  \<open>str(i)\<close> for a Python integer. The handlers call it on 64-bit ids only, far below
  the 4300 digits beyond which \<open>str\<close> raises.
\<close>

definition str_int :: "int \<Rightarrow> string" where
  "str_int i = (if i < 0 then CHR ''-'' # str_nat (nat (- i)) else str_nat (nat i))"

text \<open>
  The digit part that \<open>int(s)\<close> accepts in base 10: digits, with single underscores
  between digits.
\<close>

fun digits_ok :: "string \<Rightarrow> bool" where
  "digits_ok [] = False"
| "digits_ok [c] = is_digit c"
| "digits_ok (c # c' # cs) =
     (is_digit c \<and> (if c' = CHR ''_'' then digits_ok cs else digits_ok (c' # cs)))"

definition digits_value :: "string \<Rightarrow> nat" where
  "digits_value s = foldl (\<lambda>a c. 10 * a + digit_val c) 0 s"

text \<open>Reading a text that \<open>str\<close> wrote: the sign, then the digits.\<close>

definition decode_int :: "string \<Rightarrow> int" where
  "decode_int s =
     (case s of
        [] \<Rightarrow> 0
      | c # cs \<Rightarrow> if c = CHR ''-'' then - int (digits_value cs) else int (digits_value s))"

text \<open>
  The white space that \<open>int(s)\<close> skips around the number: the ASCII white space of the
  C parser (9 to 13 and 32) and the non-ASCII spaces, which are turned into blanks
  before parsing (133 and 160 among the code points below 256). The separators 28 to
  31, which \<open>str.strip\<close> removes, are not skipped.
\<close>

definition int_isspace :: "char \<Rightarrow> bool" where
  "int_isspace c = ((of_char c :: nat) \<in> {9, 10, 11, 12, 13, 32, 133, 160})"

text \<open>The number of digits beyond which \<open>int(s)\<close> raises \<open>ValueError\<close>.\<close>

definition max_str_digits :: nat where
  "max_str_digits = 4300"

text \<open>\<open>int(key)\<close>; \<open>None\<close> when it raises \<open>ValueError\<close>.\<close>

definition py_int :: "string \<Rightarrow> int option" where
  "py_int s =
     (case py_strip int_isspace s of
        [] \<Rightarrow> None
      | c # cs \<Rightarrow>
          (let body = (if c = CHR ''-'' \<or> c = CHR ''+'' then cs else c # cs);
               digits = filter (\<lambda>x. x \<noteq> CHR ''_'') body;
               v = int (digits_value digits)
           in if digits_ok body \<and> length digits \<le> max_str_digits
              then Some (if c = CHR ''-'' then - v else v) else None))"

subsection \<open>\<open>_safe_db_name\<close>\<close>

text \<open>The characters outside the class \<open>[^a-zA-Z0-9._-]\<close>.\<close>

definition name_char :: "char \<Rightarrow> bool" where
  "name_char c = (is_alnum c \<or> c = CHR ''.'' \<or> c = CHR ''_'' \<or> c = CHR ''-'')"

definition separator :: "char \<Rightarrow> bool" where
  "separator c = (c = CHR ''.'' \<or> c = CHR ''-'' \<or> c = CHR ''_'')"

text \<open>
  \<open>re.sub(r"[^a-zA-Z0-9._-]+", "-", s)\<close>: every maximal run of characters outside the
  class becomes one \<open>-\<close>.
\<close>

function re_sub_unsafe :: "string \<Rightarrow> string" where
  "re_sub_unsafe [] = []"
| "re_sub_unsafe (c # cs) =
     (if name_char c then c # re_sub_unsafe cs
      else CHR ''-'' # re_sub_unsafe (dropWhile (\<lambda>x. \<not> name_char x) cs))"
  by pat_completeness auto
termination
  by (relation "measure length") (auto simp: length_dropWhile_le less_Suc_eq_le)

definition safe_db_name :: "string \<Rightarrow> error + string" where
  "safe_db_name name =
     (let normalized = re_sub_unsafe (py_strip py_isspace name);
          normalized = py_strip separator normalized
      in if normalized = [] then Inl InvalidName else Inr normalized)"

text \<open>
  The sanitization as the specification words it: only the characters of the class are
  retained, all others removed, then leading and trailing separators stripped.
\<close>

definition spec_safe_db_name :: "string \<Rightarrow> error + string" where
  "spec_safe_db_name name =
     (let kept = py_strip separator (filter name_char name)
      in if kept = [] then Inl InvalidName else Inr kept)"

subsection \<open>Paths: \<open>_normalize_db_path\<close> and \<open>_resolve_create_db_path\<close>\<close>

text \<open>
  A resolved path is kept as the text of its parent directory and its final component.
  What \<open>Path(s).expanduser().resolve()\<close> answers for a text depends on the file system
  (home and working directory, symbolic links); it is a parameter \<open>resolve\<close> of the
  functions below.
\<close>

record path =
  path_parent :: string
  path_name :: string

text \<open>\<open>str(p)\<close> for a resolved path.\<close>

definition path_str :: "path \<Rightarrow> string" where
  "path_str p =
     (if path_name p = [] then path_parent p
      else if path_parent p \<noteq> [] \<and> last (path_parent p) = CHR ''/''
      then path_parent p @ path_name p
      else path_parent p @ ''/'' @ path_name p)"

text \<open>
  \<open>PurePath.suffix\<close>: the final component from its last dot on, unless that dot is its
  first or its last character.
\<close>

definition path_suffix :: "string \<Rightarrow> string" where
  "path_suffix n =
     (let after = rev (takeWhile (\<lambda>c. c \<noteq> CHR ''.'') (rev n))
      in if CHR ''.'' \<in> set n \<and> after \<noteq> [] \<and> length after + 1 < length n
         then CHR ''.'' # after else [])"

text \<open>
  \<open>p.with_suffix(suffix)\<close>: the old suffix is cut off and the new one appended; a path
  with an empty name raises \<open>ValueError\<close>.
\<close>

definition with_suffix :: "path \<Rightarrow> string \<Rightarrow> error + path" where
  "with_suffix p suffix =
     (if path_name p = [] then Inl (Uncaught ValueError)
      else Inr (p\<lparr>path_name :=
                  take (length (path_name p) - length (path_suffix (path_name p))) (path_name p)
                  @ suffix\<rparr>))"

definition normalize_db_path :: "(string \<Rightarrow> path) \<Rightarrow> string \<Rightarrow> error + path" where
  "normalize_db_path resolve db_path =
     (let p = resolve db_path
      in if path_suffix (path_name p) \<noteq> ''.faiss'' then with_suffix p ''.faiss'' else Inr p)"

record create_index_request =
  cq_db_path :: "string option"
  cq_base_dir :: "string option"
  cq_db_name :: "string option"
  cq_dimension :: int
  cq_metric :: string
  cq_overwrite :: bool

text \<open>The test \<open>s and s.strip()\<close> on an optional text.\<close>

definition given :: "string option \<Rightarrow> bool" where
  "given s = (case s of None \<Rightarrow> False | Some t \<Rightarrow> py_strip py_isspace t \<noteq> [])"

definition validate_location :: "create_index_request \<Rightarrow> error + create_index_request" where
  "validate_location payload =
     (if given (cq_db_path payload) then Inr payload
      else if given (cq_base_dir payload) \<and> given (cq_db_name payload) then Inr payload
      else Inl InvalidLocation)"

text \<open>The fields of \<open>CreateIndexRequest\<close> are checked first, then the model validator.\<close>

definition validate_create :: "create_index_request \<Rightarrow> error + create_index_request" where
  "validate_create payload =
     (if cq_dimension payload \<le> 0 \<or> cq_metric payload \<notin> {''cosine'', ''l2'', ''ip''}
      then Inl InvalidRequest
      else validate_location payload)"

definition resolve_create_db_path ::
  "(string \<Rightarrow> path) \<Rightarrow> create_index_request \<Rightarrow> error + path" where
  "resolve_create_db_path resolve payload =
     (if given (cq_db_path payload) then normalize_db_path resolve (the (cq_db_path payload))
      else
        (case (cq_base_dir payload, cq_db_name payload) of
           (Some base_dir, Some db_name) \<Rightarrow>
             if base_dir = [] \<or> db_name = [] then Inl MissingLocation
             else
               (case safe_db_name db_name of
                  Inl e \<Rightarrow> Inl e
                | Inr safe_name \<Rightarrow>
                    normalize_db_path resolve
                      (path_str \<lparr>path_parent = path_str (resolve base_dir),
                                 path_name = safe_name\<rparr>))
         | _ \<Rightarrow> Inl MissingLocation))"

text \<open>
  The file name that the specification's sentence gives: the sanitized name itself.
\<close>

definition spec_create_file_name :: "string \<Rightarrow> error + string" where
  "spec_create_file_name db_name = spec_safe_db_name db_name"

text \<open>
  A resolver for examples: on a file system without symbolic links, an absolute path in
  normal form resolves to itself, split at its last \<open>/\<close>.
\<close>

definition lexical_path :: "string \<Rightarrow> path" where
  "lexical_path s =
     (let n = rev (takeWhile (\<lambda>c. c \<noteq> CHR ''/'') (rev s));
          p = take (length s - length n - 1) s
      in \<lparr>path_parent = (if p = [] then ''/'' else p), path_name = n\<rparr>)"

subsection \<open>JSON values and dictionaries\<close>

datatype 'f json =
    JNull
  | JBool bool
  | JInt int
  | JFloat 'f
  | JStr string
  | JArr "'f json list"
  | JObj "(string \<times> 'f json) list"

type_synonym 'f dict = "(string \<times> 'f json) list"

text \<open>\<open>d.get(k, default)\<close>.\<close>

definition dict_get :: "'f dict \<Rightarrow> string \<Rightarrow> 'f json \<Rightarrow> 'f json" where
  "dict_get d k dflt = (case map_of d k of Some v \<Rightarrow> v | None \<Rightarrow> dflt)"

subsection \<open>The vector index\<close>

text \<open>
  A \<open>faiss.IndexIDMap2\<close> over a \<open>faiss.IndexFlat\<close>: the dimension \<open>d\<close> and the stored
  rows with their ids, in storage order. \<open>add_with_ids\<close> appends, \<open>remove_ids\<close> drops
  the selected rows and keeps the order of the others, \<open>reconstruct\<close> finds a row through
  the id map (the last row added under the id) and raises when the id is unknown.
\<close>

record 'f faiss_index =
  idx_d :: nat
  idx_rows :: "(int \<times> 'f list) list"

definition new_index :: "nat \<Rightarrow> 'f faiss_index" where
  "new_index dimension = \<lparr>idx_d = dimension, idx_rows = []\<rparr>"

definition ntotal :: "'f faiss_index \<Rightarrow> nat" where
  "ntotal index = length (idx_rows index)"

definition remove_ids :: "int list \<Rightarrow> 'f faiss_index \<Rightarrow> 'f faiss_index" where
  "remove_ids ids index = index\<lparr>idx_rows := filter (\<lambda>row. fst row \<notin> set ids) (idx_rows index)\<rparr>"

definition add_with_ids :: "'f list list \<Rightarrow> int list \<Rightarrow> 'f faiss_index \<Rightarrow> 'f faiss_index" where
  "add_with_ids vectors ids index = index\<lparr>idx_rows := idx_rows index @ zip ids vectors\<rparr>"

definition reconstruct :: "'f faiss_index \<Rightarrow> int \<Rightarrow> 'f list option" where
  "reconstruct index i = map_of (rev (idx_rows index)) i"



subsection \<open>The two files of one location\<close>

text \<open>
  The state is the pair of files that \<open>db_path\<close> resolves to: the index file and its
  \<open>.meta.json\<close> sidecar. An index file is absent, unreadable (\<open>faiss.read_index\<close>
  raises) or holds an index. A sidecar is absent, unreadable (\<open>read_text\<close> or
  \<open>json.loads\<close> raises) or holds a JSON document; \<open>json.dumps\<close> followed by
  \<open>json.loads\<close> is taken to give the document back.
\<close>

datatype 'f index_file = NoIndexFile | BadIndexFile | IndexFile "'f faiss_index"

datatype 'f meta_file = NoMetaFile | BadMetaFile | MetaFile "'f json"

record 'f files =
  index_file :: "'f index_file"
  meta_file :: "'f meta_file"

text \<open>
  \<open>faiss.write_index(index, path)\<close> and \<open>Path.write_text\<close> open the target itself for
  writing, which truncates it, and then write into it. The write completes, or the file
  cannot be opened (nothing is touched), or it is interrupted after the file was opened
  (a truncated file is left, which neither \<open>faiss.read_index\<close> nor \<open>json.loads\<close>
  accepts: a proper prefix of a dumped JSON object is not a JSON document).
\<close>

datatype write_outcome = Written | NotOpened | Interrupted

record io_env =
  index_write :: write_outcome
  meta_write :: write_outcome

definition write_index :: "write_outcome \<Rightarrow> 'f faiss_index \<Rightarrow> 'f index_file \<Rightarrow> 'f index_file" where
  "write_index outcome index old =
     (case outcome of Written \<Rightarrow> IndexFile index | NotOpened \<Rightarrow> old | Interrupted \<Rightarrow> BadIndexFile)"

definition save_meta :: "write_outcome \<Rightarrow> 'f dict \<Rightarrow> 'f meta_file \<Rightarrow> 'f meta_file" where
  "save_meta outcome payload old =
     (case outcome of Written \<Rightarrow> MetaFile (JObj payload) | NotOpened \<Rightarrow> old | Interrupted \<Rightarrow> BadMetaFile)"

definition default_meta :: "'f dict" where
  "default_meta = [(''records'', JObj []), (''dimension'', JNull), (''metric'', JStr ''cosine'')]"

definition load_meta :: "'f meta_file \<Rightarrow> error + 'f dict" where
  "load_meta mf =
     (case mf of
        NoMetaFile \<Rightarrow> Inr default_meta
      | BadMetaFile \<Rightarrow> Inl CorruptMetadata
      | MetaFile data \<Rightarrow>
          (case data of
             JObj kvs \<Rightarrow>
               (case map_of kvs ''records'' of
                  Some (JObj recs) \<Rightarrow> Inr kvs
                | _ \<Rightarrow> Inr (AList.update ''records'' (JObj []) kvs))
           | _ \<Rightarrow> Inl CorruptMetadata))"

text \<open>
  \<open>metric = meta.get("metric", "cosine"); if metric not in {"cosine", "l2", "ip"}:
  metric = "cosine"\<close>. The membership test hashes the value, so a list or a dictionary
  there raises \<open>TypeError\<close>.
\<close>

definition resolve_metric :: "'f dict \<Rightarrow> error + string" where
  "resolve_metric meta =
     (case dict_get meta ''metric'' (JStr ''cosine'') of
        JArr xs \<Rightarrow> Inl (Uncaught TypeError)
      | JObj kvs \<Rightarrow> Inl (Uncaught TypeError)
      | JStr s \<Rightarrow> Inr (if s \<in> {''cosine'', ''l2'', ''ip''} then s else ''cosine'')
      | _ \<Rightarrow> Inr ''cosine'')"

subsection \<open>\<open>UpsertRequest\<close> and \<open>upsert_items\<close>\<close>

record 'f upsert_item =
  item_id :: int
  item_text :: string
  item_vector :: "'f list"
  item_metadata :: "'f dict"

record upsert_response =
  up_upserted :: nat
  up_total :: nat
  up_dimension :: nat
  up_metric :: string

definition validate_items :: "'f upsert_item list \<Rightarrow> error + 'f upsert_item list" where
  "validate_items items =
     (let ids = map item_id items
      in if card (set ids) \<noteq> length ids then Inl DuplicateId else Inr items)"

text \<open>The field \<open>items\<close> of \<open>UpsertRequest\<close>: \<open>min_length=1\<close>, then the validator.\<close>

definition validate_request :: "'f upsert_item list \<Rightarrow> error + 'f upsert_item list" where
  "validate_request items = (if length items < 1 then Inl EmptyItems else validate_items items)"

text \<open>
  \<open>np.array(rows, dtype=np.float32)\<close> on a list of lists of floats: rows of unequal
  lengths raise \<open>ValueError\<close>; no row gives a one-dimensional array (\<open>Inr None\<close>);
  otherwise the array is two-dimensional and \<open>shape[1]\<close> is the common length.
\<close>

definition np_array_shape :: "'f list list \<Rightarrow> error + nat option" where
  "np_array_shape rows =
     (case rows of
        [] \<Rightarrow> Inr None
      | r # rs \<Rightarrow>
          if list_all (\<lambda>r'. length r' = length r) rs then Inr (Some (length r))
          else Inl (Uncaught ValueError))"

text \<open>\<open>np.array(ids, dtype=np.int64)\<close> raises \<open>OverflowError\<close> outside this range.\<close>

definition in_int64 :: "int \<Rightarrow> bool" where
  "in_int64 i = (- (2 ^ 63) \<le> i \<and> i < 2 ^ 63)"

text \<open>Lines 269 to 274: normalize under \<open>cosine\<close>, remove the ids, add the rows.\<close>

definition upsert_index ::
  "('f list \<Rightarrow> 'f list) \<Rightarrow> string \<Rightarrow> 'f upsert_item list \<Rightarrow> 'f faiss_index \<Rightarrow> 'f faiss_index" where
  "upsert_index nrm metric items index =
     (let vectors = map item_vector items;
          ids = map item_id items;
          vectors = (if metric = ''cosine'' then map nrm vectors else vectors)
      in add_with_ids vectors ids (remove_ids ids index))"

text \<open>Lines 277 to 281: the loop over the items.\<close>

definition item_record :: "'f upsert_item \<Rightarrow> 'f json" where
  "item_record item = JObj [(''text'', JStr (item_text item)), (''metadata'', JObj (item_metadata item))]"

definition upsert_records :: "'f upsert_item list \<Rightarrow> 'f dict \<Rightarrow> 'f dict" where
  "upsert_records items records =
     fold (\<lambda>item recs. AList.update (str_int (item_id item)) (item_record item) recs) items records"

text \<open>Lines 283 to 285.\<close>

definition upsert_meta :: "'f dict \<Rightarrow> nat \<Rightarrow> string \<Rightarrow> 'f dict \<Rightarrow> 'f dict" where
  "upsert_meta records dimension metric meta =
     AList.update ''metric'' (JStr metric)
       (AList.update ''dimension'' (JInt (int dimension))
          (AList.update ''records'' (JObj records) meta))"

text \<open>
  Lines 287 to 302 of the upsert and lines 221 to 240 of the creation: the index is
  written, then the sidecar; a failure of the first write is caught and answered, a
  failure of the second leaves the handler.
\<close>

definition persist ::
  "io_env \<Rightarrow> 'f files \<Rightarrow> 'f faiss_index \<Rightarrow> 'f dict \<Rightarrow> 'r \<Rightarrow> 'f files \<times> (error + 'r)" where
  "persist env fs index meta response =
     (let fs1 = fs\<lparr>index_file := write_index (index_write env) index (index_file fs)\<rparr>
      in if index_write env \<noteq> Written then (fs1, Inl IOError)
         else
           (let fs2 = fs1\<lparr>meta_file := save_meta (meta_write env) meta (meta_file fs1)\<rparr>
            in if meta_write env \<noteq> Written then (fs2, Inl (Uncaught OSError))
               else (fs2, Inr response)))"

definition upsert_items ::
  "('f list \<Rightarrow> 'f list) \<Rightarrow> io_env \<Rightarrow> 'f files \<Rightarrow> 'f upsert_item list
     \<Rightarrow> 'f files \<times> (error + upsert_response)" where
  "upsert_items nrm env fs items =
     (case index_file fs of
        NoIndexFile \<Rightarrow> (fs, Inl NotFound)
      | BadIndexFile \<Rightarrow> (fs, Inl CorruptIndex)
      | IndexFile index \<Rightarrow>
          (case load_meta (meta_file fs) of
             Inl e \<Rightarrow> (fs, Inl e)
           | Inr meta \<Rightarrow>
               (case resolve_metric meta of
                  Inl e \<Rightarrow> (fs, Inl e)
                | Inr metric \<Rightarrow>
                    (case np_array_shape (map item_vector items) of
                       Inl e \<Rightarrow> (fs, Inl e)
                     | Inr None \<Rightarrow> (fs, Inl (DimensionMismatch (idx_d index) None))
                     | Inr (Some width) \<Rightarrow>
                         if width \<noteq> idx_d index
                         then (fs, Inl (DimensionMismatch (idx_d index) (Some width)))
                         else if \<not> list_all in_int64 (map item_id items)
                         then (fs, Inl (Uncaught OverflowError))
                         else
                           (case dict_get meta ''records'' (JObj []) of
                              JObj records \<Rightarrow>
                                persist env fs
                                  (upsert_index nrm metric items index)
                                  (upsert_meta (upsert_records items records) (idx_d index) metric meta)
                                  \<lparr>up_upserted = length items,
                                   up_total = ntotal (upsert_index nrm metric items index),
                                   up_dimension = idx_d index,
                                   up_metric = metric\<rparr>
                            | _ \<Rightarrow> (fs, Inl (Uncaught TypeError)))))))"

text \<open>The endpoint: the request model is validated before the handler runs.\<close>

definition upsert_endpoint ::
  "('f list \<Rightarrow> 'f list) \<Rightarrow> io_env \<Rightarrow> 'f files \<Rightarrow> 'f upsert_item list
     \<Rightarrow> 'f files \<times> (error + upsert_response)" where
  "upsert_endpoint nrm env fs items =
     (case validate_request items of
        Inl e \<Rightarrow> (fs, Inl e)
      | Inr items' \<Rightarrow> upsert_items nrm env fs items')"

subsection \<open>\<open>create_index\<close>\<close>

record info_response =
  ir_db_path :: path
  ir_total :: nat
  ir_dimension :: nat
  ir_metric :: string

text \<open>
  The state \<open>fs\<close> is the pair of files at the path the request resolves to; the file
  exists when it is not \<open>NoIndexFile\<close>.
\<close>

definition create_index ::
  "(string \<Rightarrow> path) \<Rightarrow> io_env \<Rightarrow> create_index_request \<Rightarrow> 'f files
     \<Rightarrow> 'f files \<times> (error + info_response)" where
  "create_index resolve env payload fs =
     (case resolve_create_db_path resolve payload of
        Inl e \<Rightarrow> (fs, Inl e)
      | Inr db_file \<Rightarrow>
          if index_file fs \<noteq> NoIndexFile \<and> \<not> cq_overwrite payload
          then (fs, Inl AlreadyExists)
          else
            persist env fs
              (new_index (nat (cq_dimension payload)))
              [(''dimension'', JInt (cq_dimension payload)),
               (''metric'', JStr (cq_metric payload)),
               (''records'', JObj [])]
              \<lparr>ir_db_path = db_file, ir_total = 0,
               ir_dimension = nat (cq_dimension payload),
               ir_metric = cq_metric payload\<rparr>)"

definition create_endpoint ::
  "(string \<Rightarrow> path) \<Rightarrow> io_env \<Rightarrow> create_index_request \<Rightarrow> 'f files
     \<Rightarrow> 'f files \<times> (error + info_response)" where
  "create_endpoint resolve env payload fs =
     (case validate_create payload of
        Inl e \<Rightarrow> (fs, Inl e)
      | Inr payload' \<Rightarrow> create_index resolve env payload' fs)"

subsection \<open>Writing in place\<close>

text \<open>
  What a handler leaves and answers when it writes both files in place, by the outcome
  of the two writes: \<open>before\<close> are the files it found, \<open>after\<close> the files and
  \<open>response\<close> the answer when both writes complete. An index file that cannot be
  opened leaves everything as found; an index write that is interrupted leaves a
  truncated index file and the sidecar as found; after a complete index write the new
  index file stays, with the sidecar as found when it cannot be opened and truncated
  when its write is interrupted.
\<close>

definition written_in_place :: "io_env \<Rightarrow> 'f files \<Rightarrow> 'f files \<Rightarrow> 'r \<Rightarrow> 'f files \<times> (error + 'r)" where
  "written_in_place env before after response =
     (case index_write env of
        NotOpened \<Rightarrow> (before, Inl IOError)
      | Interrupted \<Rightarrow> (before\<lparr>index_file := BadIndexFile\<rparr>, Inl IOError)
      | Written \<Rightarrow>
          (case meta_write env of
             Written \<Rightarrow> (after, Inr response)
           | NotOpened \<Rightarrow> (before\<lparr>index_file := index_file after\<rparr>, Inl (Uncaught OSError))
           | Interrupted \<Rightarrow>
               (\<lparr>index_file = index_file after, meta_file = BadMetaFile\<rparr>,
                Inl (Uncaught OSError))))"

subsection \<open>\<open>get_content\<close>\<close>









subsection \<open>What is stored at a location\<close>

definition stored_index :: "'f files \<Rightarrow> 'f faiss_index option" where
  "stored_index fs = (case index_file fs of IndexFile index \<Rightarrow> Some index | _ \<Rightarrow> None)"

text \<open>The records as \<open>_load_meta\<close> delivers them.\<close>

definition stored_records :: "'f files \<Rightarrow> 'f dict" where
  "stored_records fs =
     (case load_meta (meta_file fs) of
        Inr meta \<Rightarrow> (case dict_get meta ''records'' (JObj []) of JObj records \<Rightarrow> records | _ \<Rightarrow> [])
      | Inl e \<Rightarrow> [])"

definition vector_ids :: "'f files \<Rightarrow> int set" where
  "vector_ids fs = (case stored_index fs of Some index \<Rightarrow> fst ` set (idx_rows index) | None \<Rightarrow> {})"

definition record_keys :: "'f files \<Rightarrow> string set" where
  "record_keys fs = fst ` set (stored_records fs)"

definition stored_vector :: "'f files \<Rightarrow> int \<Rightarrow> 'f list option" where
  "stored_vector fs i = (case stored_index fs of Some index \<Rightarrow> reconstruct index i | None \<Rightarrow> None)"

definition stored_record :: "'f files \<Rightarrow> int \<Rightarrow> 'f json option" where
  "stored_record fs i = map_of (stored_records fs) (str_int i)"


subsection \<open>Example states and batches\<close>

text \<open>
  A four-dimensional \<open>l2\<close> index holding the ids 1 and 2, as \<open>create_index\<close> and an
  upsert leave it, and batches for it.
\<close>

definition env_ok :: io_env where
  "env_ok = \<lparr>index_write = Written, meta_write = Written\<rparr>"

definition ex_files :: "int files" where
  "ex_files =
     \<lparr>index_file = IndexFile \<lparr>idx_d = 4, idx_rows = [(1, [1, 0, 0, 0]), (2, [0, 2, 0, 0])]\<rparr>,
      meta_file = MetaFile (JObj
        [(''dimension'', JInt 4), (''metric'', JStr ''l2''),
         (''records'', JObj
            [(''1'', JObj [(''text'', JStr ''a''), (''metadata'', JObj [])]),
             (''2'', JObj [(''text'', JStr ''b''), (''metadata'', JObj [])])])])\<rparr>"

definition ex_batch :: "int upsert_item list" where
  "ex_batch =
     [\<lparr>item_id = 2, item_text = ''bb'', item_vector = [0, 0, 3, 0], item_metadata = []\<rparr>,
      \<lparr>item_id = 3, item_text = ''c'', item_vector = [0, 0, 0, 4], item_metadata = []\<rparr>]"

definition ex_files_after :: "int files" where
  "ex_files_after =
     \<lparr>index_file = IndexFile
        \<lparr>idx_d = 4, idx_rows = [(1, [1, 0, 0, 0]), (2, [0, 0, 3, 0]), (3, [0, 0, 0, 4])]\<rparr>,
      meta_file = MetaFile (JObj
        [(''dimension'', JInt 4), (''metric'', JStr ''l2''),
         (''records'', JObj
            [(''1'', JObj [(''text'', JStr ''a''), (''metadata'', JObj [])]),
             (''2'', JObj [(''text'', JStr ''bb''), (''metadata'', JObj [])]),
             (''3'', JObj [(''text'', JStr ''c''), (''metadata'', JObj [])])])])\<rparr>"

definition ex_response :: upsert_response where
  "ex_response = \<lparr>up_upserted = 2, up_total = 3, up_dimension = 4, up_metric = ''l2''\<rparr>"

definition ex_ragged_batch :: "int upsert_item list" where
  "ex_ragged_batch =
     [\<lparr>item_id = 5, item_text = ''e'', item_vector = [1, 0, 0, 0], item_metadata = []\<rparr>,
      \<lparr>item_id = 6, item_text = ''f'', item_vector = [1, 0, 0], item_metadata = []\<rparr>]"

definition ex_short_batch :: "int upsert_item list" where
  "ex_short_batch =
     [\<lparr>item_id = 5, item_text = ''e'', item_vector = [1, 0, 0], item_metadata = []\<rparr>]"

definition ex_duplicate_batch :: "int upsert_item list" where
  "ex_duplicate_batch =
     [\<lparr>item_id = 7, item_text = ''g'', item_vector = [1, 0, 0, 0], item_metadata = []\<rparr>,
      \<lparr>item_id = 7, item_text = ''h'', item_vector = [0, 1, 0, 0], item_metadata = []\<rparr>]"

definition env_index_interrupted :: io_env where
  "env_index_interrupted = \<lparr>index_write = Interrupted, meta_write = Written\<rparr>"

definition env_meta_interrupted :: io_env where
  "env_meta_interrupted = \<lparr>index_write = Written, meta_write = Interrupted\<rparr>"

definition env_not_opened :: io_env where
  "env_not_opened = \<lparr>index_write = NotOpened, meta_write = Written\<rparr>"

definition env_meta_not_opened :: io_env where
  "env_meta_not_opened = \<lparr>index_write = Written, meta_write = NotOpened\<rparr>"

definition ex_meta_no_records :: "int files" where
  "ex_meta_no_records =
     \<lparr>index_file = IndexFile \<lparr>idx_d = 4, idx_rows = []\<rparr>,
      meta_file = MetaFile (JObj [(''records'', JArr [JInt 7]), (''dimension'', JInt 4), (''metric'', JStr ''l2'')])\<rparr>"







text \<open>Requests to create an index under \<open>/data\<close>, at a location that holds no file yet.\<close>

definition ex_create :: "string \<Rightarrow> create_index_request" where
  "ex_create db_name =
     \<lparr>cq_db_path = None, cq_base_dir = Some ''/data'', cq_db_name = Some db_name,
      cq_dimension = 4, cq_metric = ''l2'', cq_overwrite = False\<rparr>"

definition ex_no_files :: "int files" where
  "ex_no_files = \<lparr>index_file = NoIndexFile, meta_file = NoMetaFile\<rparr>"

definition ex_created_files :: "int files" where
  "ex_created_files =
     \<lparr>index_file = IndexFile \<lparr>idx_d = 4, idx_rows = []\<rparr>,
      meta_file = MetaFile (JObj
        [(''dimension'', JInt 4), (''metric'', JStr ''l2''), (''records'', JObj [])])\<rparr>"

definition ex_created_response :: info_response where
  "ex_created_response =
     \<lparr>ir_db_path = \<lparr>path_parent = ''/data'', path_name = ''my-index.faiss''\<rparr>,
      ir_total = 0, ir_dimension = 4, ir_metric = ''l2''\<rparr>"

section \<open>Properties of the string functions\<close>

lemma card_set_length_iff: "card (set xs) \<noteq> length xs \<longleftrightarrow> \<not> distinct xs"
  using card_distinct distinct_card by metis

lemma digit_char_cases:
  assumes "d < 10"
  shows "d = 0 \<or> d = 1 \<or> d = 2 \<or> d = 3 \<or> d = 4 \<or> d = 5 \<or> d = 6 \<or> d = 7 \<or> d = 8 \<or> d = (9::nat)"
  using assms by arith

lemma digit_val_digit_char: "d < 10 \<Longrightarrow> digit_val (digit_char d) = d"
  using digit_char_cases [of d] by (auto simp: digit_val_def digit_char_def)

lemma is_digit_digit_char: "d < 10 \<Longrightarrow> is_digit (digit_char d)"
  using digit_char_cases [of d] by (auto simp: is_digit_def digit_char_def)

lemma str_nat_digits: "c \<in> set (str_nat n) \<Longrightarrow> is_digit c"
proof (induction n rule: str_nat.induct)
  case (1 n)
  show ?case
  proof (cases "n < 10")
    case True
    with "1.prems" show ?thesis
      by (simp add: str_nat.simps [of n] is_digit_digit_char)
  next
    case False
    with "1.prems" "1.IH" show ?thesis
      by (auto simp: str_nat.simps [of n] is_digit_digit_char)
  qed
qed

lemma str_nat_nonempty: "str_nat n \<noteq> []"
  by (simp add: str_nat.simps [of n])

lemma digits_value_snoc: "digits_value (s @ [c]) = 10 * digits_value s + digit_val c"
  by (simp add: digits_value_def)

lemma digits_value_str_nat: "digits_value (str_nat n) = n"
proof (induction n rule: str_nat.induct)
  case (1 n)
  show ?case
  proof (cases "n < 10")
    case True
    then show ?thesis
      by (simp add: str_nat.simps [of n] digits_value_def digit_val_digit_char)
  next
    case False
    with "1.IH" show ?thesis
      by (simp add: str_nat.simps [of n] digits_value_snoc digit_val_digit_char)
  qed
qed

lemma is_digit_not_sign: "is_digit c \<Longrightarrow> c \<noteq> CHR ''-'' \<and> c \<noteq> CHR ''+'' \<and> c \<noteq> CHR ''_'' \<and> \<not> py_isspace c"
  by (auto simp: is_digit_def py_isspace_def)

lemma is_digit_not_int_space: "is_digit c \<Longrightarrow> \<not> int_isspace c"
  by (auto simp: is_digit_def int_isspace_def)

lemma hd_str_nat: "\<exists>c cs. str_nat n = c # cs \<and> is_digit c"
  using str_nat_nonempty [of n] str_nat_digits [of _ n] by (cases "str_nat n") auto

lemma decode_str_int: "decode_int (str_int i) = i"
proof (cases "i < 0")
  case True
  then show ?thesis by (simp add: decode_int_def str_int_def digits_value_str_nat)
next
  case False
  obtain c cs where s: "str_nat (nat i) = c # cs" and d: "is_digit c"
    using hd_str_nat by blast
  have "c \<noteq> CHR ''-''" using d is_digit_not_sign by blast
  moreover have "digits_value (c # cs) = nat i"
    using digits_value_str_nat [of "nat i"] s by simp
  ultimately show ?thesis using False s by (simp add: decode_int_def str_int_def)
qed

lemma str_int_inj: "str_int i = str_int j \<longleftrightarrow> i = j"
  using decode_str_int by metis

lemma digits_ok_all: "s \<noteq> [] \<Longrightarrow> \<forall>c\<in>set s. is_digit c \<Longrightarrow> digits_ok s"
proof (induction s rule: digits_ok.induct)
  case 1
  then show ?case by simp
next
  case (2 c)
  then show ?case by simp
next
  case (3 c c' cs)
  then show ?case using is_digit_not_sign [of c'] by simp
qed

lemma dropWhile_hd_id: "s \<noteq> [] \<Longrightarrow> \<not> P (hd s) \<Longrightarrow> dropWhile P s = s"
  by (cases s) auto

lemma py_strip_id:
  assumes "s \<noteq> []" "\<not> P (hd s)" "\<not> P (last s)"
  shows "py_strip P s = s"
proof -
  have "dropWhile P s = s" using assms by (simp add: dropWhile_hd_id)
  moreover have "dropWhile P (rev s) = rev s"
    using assms by (simp add: dropWhile_hd_id hd_rev)
  ultimately show ?thesis by (simp add: py_strip_def)
qed

lemma str_nat_no_underscore: "filter (\<lambda>x. x \<noteq> CHR ''_'') (str_nat n) = str_nat n"
  using str_nat_digits [of "CHR ''_''" n] is_digit_not_sign [of "CHR ''_''"]
  by (auto simp: filter_id_conv)

lemma py_strip_str_int: "py_strip int_isspace (str_int i) = str_int i"
proof (rule py_strip_id)
  show "str_int i \<noteq> []" by (simp add: str_int_def str_nat_nonempty)
  show "\<not> int_isspace (hd (str_int i))"
    using hd_str_nat [of "nat i"] is_digit_not_int_space
    by (auto simp: str_int_def int_isspace_def)
  have "last (str_int i) \<in> set (str_nat (nat (- i))) \<or> last (str_int i) \<in> set (str_nat (nat i))"
    using last_in_set [OF str_nat_nonempty] by (simp add: str_int_def str_nat_nonempty)
  then show "\<not> int_isspace (last (str_int i))"
    using str_nat_digits is_digit_not_int_space by blast
qed

lemma digits_ok_str_nat: "digits_ok (str_nat n)"
  using digits_ok_all str_nat_nonempty str_nat_digits by blast

lemma length_str_nat: "n < 10 ^ Suc k \<Longrightarrow> length (str_nat n) \<le> Suc k"
proof (induction k arbitrary: n)
  case 0
  then show ?case by (simp add: str_nat.simps [of n])
next
  case (Suc k)
  show ?case
  proof (cases "n < 10")
    case True
    then show ?thesis by (simp add: str_nat.simps [of n])
  next
    case False
    define m :: nat where "m = 10 ^ Suc k"
    have "n < 10 * m" using Suc.prems by (simp add: m_def)
    then have "n div 10 < m" by arith
    then have "length (str_nat (n div 10)) \<le> Suc k"
      unfolding m_def by (rule Suc.IH)
    with False show ?thesis by (simp add: str_nat.simps [of n])
  qed
qed

lemma length_str_nat_int64: "n \<le> 2 ^ 63 \<Longrightarrow> length (str_nat n) \<le> max_str_digits"
proof -
  assume "n \<le> 2 ^ 63"
  then have "n < 10 ^ Suc 18" by simp
  then have "length (str_nat n) \<le> Suc 18" by (rule length_str_nat)
  then show ?thesis by (simp add: max_str_digits_def)
qed

text \<open>The keys that the upsert writes are read back by \<open>int\<close> as the ids.\<close>

lemma py_int_str_int:
  assumes "in_int64 i"
  shows "py_int (str_int i) = Some i"
proof (cases "i < 0")
  case True
  then have "str_int i = CHR ''-'' # str_nat (nat (- i))" by (simp add: str_int_def)
  moreover have "length (str_nat (nat (- i))) \<le> max_str_digits"
    using assms True by (intro length_str_nat_int64) (simp add: in_int64_def)
  ultimately show ?thesis
    using True py_strip_str_int [of i]
    by (simp add: py_int_def digits_ok_str_nat str_nat_no_underscore digits_value_str_nat)
next
  case False
  obtain c cs where s: "str_nat (nat i) = c # cs" and d: "is_digit c"
    using hd_str_nat by blast
  have si: "str_int i = c # cs" using False s by (simp add: str_int_def)
  have ns: "c \<noteq> CHR ''-''" "c \<noteq> CHR ''+''" using d is_digit_not_sign by blast+
  have "digits_ok (c # cs)" using digits_ok_str_nat [of "nat i"] s by simp
  moreover have f: "filter (\<lambda>x. x \<noteq> CHR ''_'') (c # cs) = c # cs"
    using str_nat_no_underscore [of "nat i"] s by simp
  moreover have "digits_value (c # cs) = nat i"
    using digits_value_str_nat [of "nat i"] s by simp
  moreover have "length (str_nat (nat i)) \<le> max_str_digits"
    using assms False by (intro length_str_nat_int64) (simp add: in_int64_def)
  then have "length (filter (\<lambda>x. x \<noteq> CHR ''_'') (c # cs)) \<le> max_str_digits"
    using s by (simp only: f)
  ultimately show ?thesis
    using py_strip_str_int [of i] si ns False by (simp add: py_int_def del: filter.simps)
qed

section \<open>Properties of the name sanitization\<close>

lemma filter_dropWhile_disjoint:
  "(\<And>x. P x \<Longrightarrow> \<not> Q x) \<Longrightarrow> filter Q (dropWhile P xs) = filter Q xs"
  by (induction xs) auto

lemma filter_py_strip_disjoint:
  assumes "\<And>x. P x \<Longrightarrow> \<not> Q x"
  shows "filter Q (py_strip P s) = filter Q s"
proof -
  have "filter Q (py_strip P s) = rev (filter Q (dropWhile P (rev (dropWhile P s))))"
    by (simp add: py_strip_def rev_filter)
  also have "\<dots> = rev (filter Q (rev (dropWhile P s)))"
    using assms by (simp add: filter_dropWhile_disjoint)
  also have "\<dots> = filter Q (dropWhile P s)"
    by (simp add: rev_filter)
  also have "\<dots> = filter Q s"
    using assms by (simp add: filter_dropWhile_disjoint)
  finally show ?thesis .
qed

lemma set_py_strip:
  assumes "c \<in> set (py_strip P s)"
  shows "c \<in> set s"
proof -
  have "c \<in> set (dropWhile P (rev (dropWhile P s)))"
    using assms by (simp add: py_strip_def)
  then have "c \<in> set (rev (dropWhile P s))" by (rule set_dropWhileD)
  then have "c \<in> set (dropWhile P s)" by simp
  then show ?thesis by (rule set_dropWhileD)
qed

lemma last_dropWhile_nonempty: "dropWhile P xs \<noteq> [] \<Longrightarrow> last (dropWhile P xs) = last xs"
  by (induction xs) (auto split: if_splits)

lemma py_strip_ends:
  assumes "py_strip P s \<noteq> []"
  shows "\<not> P (hd (py_strip P s)) \<and> \<not> P (last (py_strip P s))"
proof -
  let ?t = "dropWhile P s"
  let ?u = "dropWhile P (rev ?t)"
  have u: "?u \<noteq> []" using assms by (simp add: py_strip_def)
  have t: "?t \<noteq> []"
  proof
    assume "?t = []"
    then have "?u = []" by (simp only: rev.simps dropWhile.simps)
    with u show False by simp
  qed
  have "last (py_strip P s) = hd ?u" using u by (simp add: py_strip_def last_rev)
  moreover have "\<not> P (hd ?u)" using u by (rule hd_dropWhile)
  moreover have "hd (py_strip P s) = last ?u" using u by (simp add: py_strip_def hd_rev)
  moreover have "last ?u = last (rev ?t)" using u by (rule last_dropWhile_nonempty)
  moreover have "last (rev ?t) = hd ?t" using t by (simp add: last_rev)
  moreover have "\<not> P (hd ?t)" using t by (rule hd_dropWhile)
  ultimately show ?thesis by simp
qed

lemma py_strip_Nil_iff: "py_strip P s = [] \<longleftrightarrow> (\<forall>c \<in> set s. P c)"
proof
  assume "py_strip P s = []"
  then have "\<forall>c \<in> set (dropWhile P s). P c" by (simp add: py_strip_def)
  then have "dropWhile P s = []"
    using hd_dropWhile [of P s] hd_in_set [of "dropWhile P s"] by blast
  then show "\<forall>c \<in> set s. P c" by simp
next
  assume "\<forall>c \<in> set s. P c"
  then have "dropWhile P s = []" by simp
  then show "py_strip P s = []" by (simp only: py_strip_def rev.simps dropWhile.simps)
qed

lemma name_char_re_sub_unsafe: "c \<in> set (re_sub_unsafe s) \<Longrightarrow> name_char c"
proof (induction s arbitrary: c rule: re_sub_unsafe.induct)
  case 1
  then show ?case by simp
next
  case (2 d ds)
  show ?case
  proof (cases "name_char d")
    case True
    with "2.prems" have "c = d \<or> c \<in> set (re_sub_unsafe ds)" by simp
    with True "2.IH"(1) show ?thesis by blast
  next
    case False
    have m: "name_char (CHR ''-'')" by (simp add: name_char_def)
    from False "2.prems" have "c = CHR ''-'' \<or> c \<in> set (re_sub_unsafe (dropWhile (\<lambda>x. \<not> name_char x) ds))"
      by simp
    with False m "2.IH"(2) show ?thesis by blast
  qed
qed

lemma alnum_name_char: "is_alnum c \<Longrightarrow> name_char c"
  by (simp add: name_char_def)

lemma filter_alnum_re_sub_unsafe: "filter is_alnum (re_sub_unsafe s) = filter is_alnum s"
proof (induction s rule: re_sub_unsafe.induct)
  case 1
  then show ?case by simp
next
  case (2 c cs)
  show ?case
  proof (cases "name_char c")
    case True
    then have "re_sub_unsafe (c # cs) = c # re_sub_unsafe cs" by simp
    with True "2.IH"(1) show ?thesis by simp
  next
    case False
    let ?rest = "dropWhile (\<lambda>x. \<not> name_char x) cs"
    have d: "\<not> is_alnum (CHR ''-'')" by (simp add: is_alnum_def)
    have n: "\<not> is_alnum c" using False alnum_name_char by blast
    have r: "re_sub_unsafe (c # cs) = CHR ''-'' # re_sub_unsafe ?rest" using False by simp
    have "filter is_alnum ?rest = filter is_alnum cs"
      by (rule filter_dropWhile_disjoint) (auto dest: alnum_name_char)
    with False "2.IH"(2) have "filter is_alnum (re_sub_unsafe ?rest) = filter is_alnum cs" by simp
    with r d n show ?thesis by simp
  qed
qed

lemma separator_not_alnum: "separator c \<Longrightarrow> \<not> is_alnum c"
  by (auto simp: separator_def is_alnum_def)

lemma isspace_not_alnum: "py_isspace c \<Longrightarrow> \<not> is_alnum c"
  by (auto simp: py_isspace_def is_alnum_def)

lemma name_char_cases: "name_char c \<longleftrightarrow> is_alnum c \<or> separator c"
  by (auto simp: name_char_def separator_def)

lemma re_sub_unsafe_name_chars: "\<forall>c \<in> set xs. name_char c \<Longrightarrow> re_sub_unsafe (xs @ ys) = xs @ re_sub_unsafe ys"
  by (induction xs) auto

lemma dropWhile_run:
  "\<forall>c \<in> set bad. P c \<Longrightarrow> ys = [] \<or> \<not> P (hd ys) \<Longrightarrow> dropWhile P (bad @ ys) = ys"
  by (induction bad) (cases ys; auto)+

lemma re_sub_unsafe_run:
  assumes "\<forall>c \<in> set xs. name_char c" "bad \<noteq> []" "\<forall>c \<in> set bad. \<not> name_char c"
    "ys = [] \<or> name_char (hd ys)"
  shows "re_sub_unsafe (xs @ bad @ ys) = xs @ CHR ''-'' # re_sub_unsafe ys"
proof -
  obtain b bs where b: "bad = b # bs" using assms(2) by (cases bad) auto
  have "dropWhile (\<lambda>x. \<not> name_char x) (bs @ ys) = ys"
    using assms(3,4) b by (intro dropWhile_run) auto
  then have "re_sub_unsafe (bad @ ys) = CHR ''-'' # re_sub_unsafe ys"
    using assms(3) b by simp
  then show ?thesis using assms(1) by (simp add: re_sub_unsafe_name_chars)
qed

lemma filter_alnum_sanitized:
  "filter is_alnum (py_strip separator (re_sub_unsafe (py_strip py_isspace name))) = filter is_alnum name"
  by (simp add: filter_py_strip_disjoint separator_not_alnum isspace_not_alnum
      filter_alnum_re_sub_unsafe)

lemmas name_eval =
  safe_db_name_def spec_safe_db_name_def py_strip_def py_isspace_def separator_def name_char_def
  is_alnum_def Let_def

lemma safe_db_name_Inl_iff:
  "safe_db_name name = Inl InvalidName \<longleftrightarrow> (\<forall>c \<in> set name. \<not> is_alnum c)"
proof -
  let ?r = "py_strip separator (re_sub_unsafe (py_strip py_isspace name))"
  have nc: "\<forall>c \<in> set ?r. name_char c"
    using set_py_strip name_char_re_sub_unsafe by blast
  have "?r = [] \<longleftrightarrow> filter is_alnum ?r = []"
  proof
    assume "filter is_alnum ?r = []"
    then have "\<forall>c \<in> set ?r. separator c"
      using nc by (auto simp: filter_empty_conv name_char_cases)
    then have "\<not> (?r \<noteq> [])"
      using py_strip_ends [of separator "re_sub_unsafe (py_strip py_isspace name)"]
        hd_in_set [of ?r] by blast
    then show "?r = []" by simp
  qed simp
  then have "?r = [] \<longleftrightarrow> (\<forall>c \<in> set name. \<not> is_alnum c)"
    by (simp add: filter_alnum_sanitized filter_empty_conv)
  then show ?thesis by (simp add: safe_db_name_def Let_def)
qed

lemma safe_db_name_Inr:
  assumes "safe_db_name name = Inr r"
  shows "r = py_strip separator (re_sub_unsafe (py_strip py_isspace name))"
    and "r \<noteq> []"
    and "\<forall>c \<in> set r. name_char c"
    and "is_alnum (hd r)" and "is_alnum (last r)"
    and "filter is_alnum r = filter is_alnum name"
proof -
  let ?r = "py_strip separator (re_sub_unsafe (py_strip py_isspace name))"
  have nc: "\<forall>c \<in> set ?r. name_char c"
    using set_py_strip name_char_re_sub_unsafe by blast
  from assms have r: "r = ?r" and n: "?r \<noteq> []"
    by (auto simp: safe_db_name_def Let_def split: if_splits)
  show "r = ?r" by (rule r)
  show "r \<noteq> []" using r n by simp
  show "\<forall>c \<in> set r. name_char c" using nc r by simp
  have "\<not> separator (hd ?r)" "\<not> separator (last ?r)" "hd ?r \<in> set ?r" "last ?r \<in> set ?r"
    using py_strip_ends [OF n] n by simp_all
  then show "is_alnum (hd r)" "is_alnum (last r)"
    using nc r by (auto simp: name_char_cases)
  show "filter is_alnum r = filter is_alnum name"
    using r by (simp only: filter_alnum_sanitized)
qed

lemma path_suffix_no_dot: "CHR ''.'' \<notin> set n \<Longrightarrow> path_suffix n = []"
  by (simp add: path_suffix_def)

lemma path_suffix_split:
  assumes "stem \<noteq> []" "ext \<noteq> []" "CHR ''.'' \<notin> set ext"
  shows "path_suffix (stem @ CHR ''.'' # ext) = CHR ''.'' # ext"
proof -
  have "rev (stem @ CHR ''.'' # ext) = rev ext @ CHR ''.'' # rev stem" by simp
  moreover have "takeWhile (\<lambda>c. c \<noteq> CHR ''.'') (rev ext @ CHR ''.'' # rev stem) = rev ext"
    using assms(3) by (auto simp: takeWhile_tail)
  ultimately have "rev (takeWhile (\<lambda>c. c \<noteq> CHR ''.'') (rev (stem @ CHR ''.'' # ext))) = ext"
    by simp
  then show ?thesis
    using assms(1,2) unfolding path_suffix_def Let_def
    by (simp del: rev_append rev.simps)
qed

lemma alnum_not_dot: "is_alnum c \<Longrightarrow> c \<noteq> CHR ''.''"
  by (auto simp: is_alnum_def)

lemma resolve_create_sanitized:
  assumes "cq_db_path payload = None" "cq_base_dir payload = Some base_dir" "base_dir \<noteq> []"
    and "cq_db_name payload = Some name" "safe_db_name name = Inr r"
  shows "resolve_create_db_path resolve payload =
           normalize_db_path resolve
             (path_str \<lparr>path_parent = path_str (resolve base_dir), path_name = r\<rparr>)"
proof -
  have "name \<noteq> []"
    using assms(5) by (auto simp: safe_db_name_def py_strip_def)
  with assms show ?thesis by (simp add: resolve_create_db_path_def given_def)
qed

lemmas path_eval =
  resolve_create_db_path_def normalize_db_path_def with_suffix_def path_suffix_def path_str_def
  lexical_path_def given_def ex_create_def

lemma ex_resolve_create:
  "resolve_create_db_path lexical_path (ex_create ''my index'') =
     Inr \<lparr>path_parent = ''/data'', path_name = ''my-index.faiss''\<rparr>"
  by (simp add: path_eval name_eval)

section \<open>Properties of the upsert\<close>

lemma load_meta_records:
  assumes "load_meta mf = Inr meta"
  shows "\<exists>recs. map_of meta ''records'' = Some (JObj recs)"
proof (cases mf)
  case NoMetaFile
  with assms show ?thesis by (auto simp: load_meta_def default_meta_def)
next
  case BadMetaFile
  with assms show ?thesis by (simp add: load_meta_def)
next
  case (MetaFile data)
  show ?thesis
  proof (cases data)
    case (JObj kvs)
    show ?thesis
    proof (cases "\<exists>recs. map_of kvs ''records'' = Some (JObj recs)")
      case True
      then obtain recs where "map_of kvs ''records'' = Some (JObj recs)" by blast
      with assms MetaFile JObj show ?thesis by (simp add: load_meta_def)
    next
      case False
      then have "load_meta mf = Inr (AList.update ''records'' (JObj []) kvs)"
        using MetaFile JObj by (auto simp: load_meta_def split: option.splits json.splits)
      with assms show ?thesis by (auto simp: update_conv')
    qed
  qed (use assms MetaFile in \<open>simp_all add: load_meta_def\<close>)
qed

lemma upsert_items_success:
  assumes "upsert_items nrm env fs items = (fs', Inr r)"
  shows "\<exists>index meta metric records.
           index_file fs = IndexFile index \<and>
           load_meta (meta_file fs) = Inr meta \<and>
           resolve_metric meta = Inr metric \<and>
           map_of meta ''records'' = Some (JObj records) \<and>
           np_array_shape (map item_vector items) = Inr (Some (idx_d index)) \<and>
           list_all in_int64 (map item_id items) \<and>
           index_write env = Written \<and> meta_write env = Written \<and>
           index_file fs' = IndexFile (upsert_index nrm metric items index) \<and>
           meta_file fs' =
             MetaFile (JObj (upsert_meta (upsert_records items records) (idx_d index) metric meta)) \<and>
           r = \<lparr>up_upserted = length items,
                up_total = ntotal (upsert_index nrm metric items index),
                up_dimension = idx_d index, up_metric = metric\<rparr>"
proof -
  obtain index where i: "index_file fs = IndexFile index"
    using assms by (cases "index_file fs") (simp_all add: upsert_items_def)
  obtain meta where m: "load_meta (meta_file fs) = Inr meta"
    using assms i by (cases "load_meta (meta_file fs)") (simp_all add: upsert_items_def)
  obtain metric where c: "resolve_metric meta = Inr metric"
    using assms i m by (cases "resolve_metric meta") (simp_all add: upsert_items_def)
  obtain records where r: "map_of meta ''records'' = Some (JObj records)"
    using load_meta_records [OF m] by blast
  then have g: "dict_get meta ''records'' (JObj []) = JObj records"
    by (simp add: dict_get_def)
  have s: "np_array_shape (map item_vector items) = Inr (Some (idx_d index))"
    using assms i m c
    by (cases "np_array_shape (map item_vector items)")
       (auto simp: upsert_items_def split: option.splits if_splits)
  have o: "list_all in_int64 (map item_id items)"
    using assms i m c s by (auto simp: upsert_items_def split: if_splits)
  have p: "persist env fs (upsert_index nrm metric items index)
             (upsert_meta (upsert_records items records) (idx_d index) metric meta)
             \<lparr>up_upserted = length items,
              up_total = ntotal (upsert_index nrm metric items index),
              up_dimension = idx_d index, up_metric = metric\<rparr> = (fs', Inr r)"
    using assms i m c s o g by (simp add: upsert_items_def)
  then have w: "index_write env = Written" "meta_write env = Written"
    by (auto simp: persist_def Let_def split: if_splits)
  with p have "index_file fs' = IndexFile (upsert_index nrm metric items index)"
    "meta_file fs' =
       MetaFile (JObj (upsert_meta (upsert_records items records) (idx_d index) metric meta))"
    "r = \<lparr>up_upserted = length items,
          up_total = ntotal (upsert_index nrm metric items index),
          up_dimension = idx_d index, up_metric = metric\<rparr>"
    by (auto simp: persist_def Let_def write_index_def save_meta_def)
  with i m c r s o w show ?thesis by blast
qed

lemma idx_rows_upsert_index:
  "idx_rows (upsert_index nrm metric items index) =
     filter (\<lambda>row. fst row \<notin> item_id ` set items) (idx_rows index) @
     zip (map item_id items)
       (if metric = ''cosine'' then map nrm (map item_vector items) else map item_vector items)"
  by (simp add: upsert_index_def add_with_ids_def remove_ids_def Let_def)

lemma idx_d_upsert_index: "idx_d (upsert_index nrm metric items index) = idx_d index"
  by (simp add: upsert_index_def add_with_ids_def remove_ids_def Let_def)

lemma fst_zip_ids:
  "fst ` set (zip (map item_id items)
       (if c then map nrm (map item_vector items) else map item_vector items)) = item_id ` set items"
proof -
  have "map fst (zip (map item_id items)
       (if c then map nrm (map item_vector items) else map item_vector items)) = map item_id items"
    by (simp add: map_fst_zip)
  then have "set (map fst (zip (map item_id items)
       (if c then map nrm (map item_vector items) else map item_vector items))) = set (map item_id items)"
    by (rule arg_cong)
  then show ?thesis by (simp only: set_map)
qed

lemma ids_upsert_index:
  "fst ` set (idx_rows (upsert_index nrm metric items index)) =
     fst ` set (idx_rows index) \<union> item_id ` set items"
  unfolding idx_rows_upsert_index set_append image_Un fst_zip_ids by auto

lemma keys_upsert_records:
  "fst ` set (upsert_records items records) =
     fst ` set records \<union> (\<lambda>item. str_int (item_id item)) ` set items"
  unfolding upsert_records_def
  by (induction items arbitrary: records) (auto simp: dom_update)

lemma map_of_upsert_meta:
  "map_of (upsert_meta records dimension metric meta) =
     (map_of meta)(''records'' \<mapsto> JObj records, ''dimension'' \<mapsto> JInt (int dimension),
                   ''metric'' \<mapsto> JStr metric)"
  by (simp add: upsert_meta_def update_conv')

lemma load_upsert_meta:
  "load_meta (MetaFile (JObj (upsert_meta records dimension metric meta))) =
     Inr (upsert_meta records dimension metric meta)"
  by (simp add: load_meta_def map_of_upsert_meta)

lemma stored_records_after:
  "meta_file fs = MetaFile (JObj (upsert_meta records dimension metric meta)) \<Longrightarrow>
     stored_records fs = records"
  by (simp add: stored_records_def load_upsert_meta dict_get_def map_of_upsert_meta)

lemma stored_records_before:
  "load_meta (meta_file fs) = Inr meta \<Longrightarrow> map_of meta ''records'' = Some (JObj records) \<Longrightarrow>
     stored_records fs = records"
  by (simp add: stored_records_def dict_get_def)

lemma map_of_filter_fst:
  "map_of (filter (\<lambda>row. Q (fst row)) xs) j = (if Q j then map_of xs j else None)"
  by (induction xs) auto

lemma reconstruct_upsert_index:
  assumes "j \<notin> item_id ` set items"
  shows "reconstruct (upsert_index nrm metric items index) j = reconstruct index j"
proof -
  let ?Z = "zip (map item_id items)
       (if metric = ''cosine'' then map nrm (map item_vector items) else map item_vector items)"
  have "j \<notin> fst ` set (rev ?Z)"
    using assms fst_zip_ids [of items "metric = ''cosine''" nrm] by simp
  then have z: "map_of (rev ?Z) j = None"
    by (simp only: map_of_eq_None_iff not_False_eq_True)
  have "map_of (rev (filter (\<lambda>row. fst row \<notin> item_id ` set items) (idx_rows index))) j =
        map_of (rev (idx_rows index)) j"
    using assms map_of_filter_fst [of "\<lambda>i. i \<notin> item_id ` set items" "rev (idx_rows index)" j]
    by (simp add: rev_filter)
  with z show ?thesis
    by (simp add: reconstruct_def idx_rows_upsert_index map_add_def)
qed

lemma other_rows_upsert_index:
  "filter (\<lambda>row. fst row \<notin> item_id ` set items) (idx_rows (upsert_index nrm metric items index)) =
   filter (\<lambda>row. fst row \<notin> item_id ` set items) (idx_rows index)"
proof -
  let ?Z = "zip (map item_id items)
       (if metric = ''cosine'' then map nrm (map item_vector items) else map item_vector items)"
  have "\<forall>row \<in> set ?Z. fst row \<in> item_id ` set items"
    using fst_zip_ids [of items "metric = ''cosine''" nrm] by blast
  then have "filter (\<lambda>row. fst row \<notin> item_id ` set items) ?Z = []"
    by (simp add: filter_empty_conv)
  then show ?thesis by (simp add: idx_rows_upsert_index)
qed

lemma map_of_upsert_records_other:
  "k \<notin> (\<lambda>item. str_int (item_id item)) ` set items \<Longrightarrow>
     map_of (upsert_records items records) k = map_of records k"
  unfolding upsert_records_def
  by (induction items arbitrary: records) (auto simp: update_conv')

lemma map_of_upsert_records_item:
  "distinct (map item_id items) \<Longrightarrow> item \<in> set items \<Longrightarrow>
     map_of (upsert_records items records) (str_int (item_id item)) = Some (item_record item)"
proof (induction items arbitrary: records)
  case Nil
  then show ?case by simp
next
  case (Cons x xs)
  show ?case
  proof (cases "item \<in> set xs")
    case True
    with Cons show ?thesis by (simp add: upsert_records_def)
  next
    case False
    with Cons.prems have e: "item = x" by simp
    have "str_int (item_id x) \<notin> (\<lambda>item. str_int (item_id item)) ` set xs"
      using Cons.prems(1) by (auto simp: str_int_inj)
    from map_of_upsert_records_other [OF this]
    show ?thesis using e by (simp add: upsert_records_def update_conv')
  qed
qed

lemma upsert_records_same:
  "\<forall>item \<in> set items. map_of records (str_int (item_id item)) = Some (item_record item) \<Longrightarrow>
     upsert_records items records = records"
  unfolding upsert_records_def
  by (induction items arbitrary: records) (auto simp: update_triv)

lemma upsert_records_twice:
  "distinct (map item_id items) \<Longrightarrow>
     upsert_records items (upsert_records items records) = upsert_records items records"
  by (rule upsert_records_same) (simp add: map_of_upsert_records_item)

lemma upsert_index_twice:
  "upsert_index nrm metric items (upsert_index nrm metric items index) =
     upsert_index nrm metric items index"
proof -
  let ?Z = "zip (map item_id items)
       (if metric = ''cosine'' then map nrm (map item_vector items) else map item_vector items)"
  have "\<forall>row \<in> set ?Z. fst row \<in> item_id ` set items"
    using fst_zip_ids [of items "metric = ''cosine''" nrm] by blast
  then have "filter (\<lambda>row. fst row \<notin> item_id ` set items) ?Z = []"
    by (simp add: filter_empty_conv)
  then show ?thesis
    by (simp add: upsert_index_def add_with_ids_def remove_ids_def Let_def)
qed

lemma upsert_meta_twice:
  "upsert_meta records dimension metric (upsert_meta records dimension metric meta) =
     upsert_meta records dimension metric meta"
proof -
  let ?m = "upsert_meta records dimension metric meta"
  have a: "AList.update ''records'' (JObj records) ?m = ?m"
    by (rule update_triv) (simp add: map_of_upsert_meta)
  have b: "AList.update ''dimension'' (JInt (int dimension)) ?m = ?m"
    by (rule update_triv) (simp add: map_of_upsert_meta)
  have c: "AList.update ''metric'' (JStr metric) ?m = ?m"
    by (rule update_triv) (simp add: map_of_upsert_meta)
  show ?thesis
    by (subst (1) upsert_meta_def) (simp only: a b c)
qed

lemma resolve_metric_range:
  "resolve_metric meta = Inr metric \<Longrightarrow> metric \<in> {''cosine'', ''l2'', ''ip''}"
  by (auto simp: resolve_metric_def split: json.splits if_splits)

lemma resolve_metric_upsert_meta:
  "metric \<in> {''cosine'', ''l2'', ''ip''} \<Longrightarrow>
     resolve_metric (upsert_meta records dimension metric meta) = Inr metric"
  by (auto simp: resolve_metric_def dict_get_def map_of_upsert_meta)

lemma validate_request_Inr:
  "validate_request items = Inr items' \<Longrightarrow> items' = items \<and> distinct (map item_id items) \<and> items \<noteq> []"
  by (auto simp: validate_request_def validate_items_def Let_def card_set_length_iff split: if_splits)

lemmas upsert_eval =
  upsert_items_def persist_def write_index_def save_meta_def load_meta_def resolve_metric_def
  dict_get_def np_array_shape_def in_int64_def upsert_index_def upsert_records_def upsert_meta_def
  item_record_def add_with_ids_def remove_ids_def ntotal_def str_int_def str_nat.simps
  digit_char_def Let_def

lemma ex_upsert:
  "upsert_items (\<lambda>v. v) env_ok ex_files ex_batch = (ex_files_after, Inr ex_response)"
  by (simp add: upsert_eval env_ok_def ex_files_def ex_batch_def ex_files_after_def ex_response_def)

lemma ex_keys: "record_keys ex_files = str_int ` vector_ids ex_files"
  by (simp add: record_keys_def vector_ids_def stored_records_def stored_index_def load_meta_def
      dict_get_def ex_files_def str_int_def str_nat.simps digit_char_def)

lemma np_array_shape_Some:
  "np_array_shape rows = Inr (Some w) \<Longrightarrow> \<forall>r \<in> set rows. length r = w"
  by (cases rows) (auto simp: np_array_shape_def list_all_iff split: if_splits)

lemma np_array_shape_uniform:
  "rows \<noteq> [] \<Longrightarrow> \<forall>r \<in> set rows. length r = w \<Longrightarrow> np_array_shape rows = Inr (Some w)"
  by (cases rows) (auto simp: np_array_shape_def list_all_iff)

lemma upsert_items_error_before_write:
  assumes "index_file fs = IndexFile index"
    and "np_array_shape (map item_vector items) \<noteq> Inr (Some (idx_d index))"
  shows "\<exists>e. upsert_items nrm env fs items = (fs, Inl e)"
  using assms
  by (auto simp: upsert_items_def split: sum.splits option.splits)

text \<open>
  The guard of lines 261 to 265: a batch with a vector of the wrong length never reaches
  the writes, and a batch whose vectors share one wrong length is answered with the
  dimension and that length.
\<close>

lemma dimension_mismatch_answered:
  assumes "index_file fs = IndexFile index"
  shows "((\<exists>item \<in> set items. length (item_vector item) \<noteq> idx_d index) \<longrightarrow>
            (\<exists>e. upsert_items nrm env fs items = (fs, Inl e))) \<and>
         (load_meta (meta_file fs) = Inr meta \<and> resolve_metric meta = Inr metric \<and>
          items \<noteq> [] \<and> (\<forall>item \<in> set items. length (item_vector item) = w) \<and> w \<noteq> idx_d index \<longrightarrow>
            upsert_items nrm env fs items = (fs, Inl (DimensionMismatch (idx_d index) (Some w))))"
proof (intro conjI impI)
  assume "\<exists>item \<in> set items. length (item_vector item) \<noteq> idx_d index"
  then have "np_array_shape (map item_vector items) \<noteq> Inr (Some (idx_d index))"
    using np_array_shape_Some [of "map item_vector items" "idx_d index"] by auto
  then show "\<exists>e. upsert_items nrm env fs items = (fs, Inl e)"
    using assms by (rule upsert_items_error_before_write [rotated])
next
  assume a: "load_meta (meta_file fs) = Inr meta \<and> resolve_metric meta = Inr metric \<and>
          items \<noteq> [] \<and> (\<forall>item \<in> set items. length (item_vector item) = w) \<and> w \<noteq> idx_d index"
  then have "np_array_shape (map item_vector items) = Inr (Some w)"
    by (intro np_array_shape_uniform) auto
  with a assms show "upsert_items nrm env fs items = (fs, Inl (DimensionMismatch (idx_d index) (Some w)))"
    by (simp add: upsert_items_def)
qed












lemma upsert_items_any_env:
  assumes "upsert_items nrm env fs items = (fs', Inr r)"
  shows "\<exists>index meta response.
           \<forall>env'. upsert_items nrm env' fs items = persist env' fs index meta response"
proof -
  obtain index meta metric records where
    i: "index_file fs = IndexFile index" and
    m: "load_meta (meta_file fs) = Inr meta" and
    c: "resolve_metric meta = Inr metric" and
    r: "map_of meta ''records'' = Some (JObj records)" and
    s: "np_array_shape (map item_vector items) = Inr (Some (idx_d index))" and
    o: "list_all in_int64 (map item_id items)"
    using upsert_items_success [OF assms] by blast
  have "upsert_items nrm env' fs items =
          persist env' fs (upsert_index nrm metric items index)
            (upsert_meta (upsert_records items records) (idx_d index) metric meta)
            \<lparr>up_upserted = length items,
             up_total = ntotal (upsert_index nrm metric items index),
             up_dimension = idx_d index, up_metric = metric\<rparr>" for env'
    using i m c r s o by (simp add: upsert_items_def dict_get_def)
  then show ?thesis by blast
qed

lemma create_index_any_env:
  assumes "create_index resolve env payload fs = (fs', Inr r)"
  shows "\<exists>index meta response.
           \<forall>env'. create_index resolve env' payload fs = persist env' fs index meta response"
proof -
  obtain db_file where p: "resolve_create_db_path resolve payload = Inr db_file"
    using assms by (cases "resolve_create_db_path resolve payload") (simp_all add: create_index_def)
  have e: "\<not> (index_file fs \<noteq> NoIndexFile \<and> \<not> cq_overwrite payload)"
    using assms p by (auto simp: create_index_def split: if_splits)
  have "create_index resolve env' payload fs =
          persist env' fs (new_index (nat (cq_dimension payload)))
            [(''dimension'', JInt (cq_dimension payload)),
             (''metric'', JStr (cq_metric payload)),
             (''records'', JObj [])]
            \<lparr>ir_db_path = db_file, ir_total = 0,
             ir_dimension = nat (cq_dimension payload),
             ir_metric = cq_metric payload\<rparr>" for env'
    using p e by (auto simp: create_index_def)
  then show ?thesis by blast
qed

lemma persist_written_in_place:
  assumes "persist env_ok fs index meta response = (fs_ok, Inr r)"
  shows "persist env fs index meta response = written_in_place env fs fs_ok r"
proof -
  have ok: "fs_ok = fs\<lparr>index_file := IndexFile index, meta_file := MetaFile (JObj meta)\<rparr>"
    "r = response"
    using assms by (auto simp: persist_def env_ok_def write_index_def save_meta_def Let_def)
  show ?thesis
    by (cases fs; cases "index_write env"; cases "meta_write env")
       (simp_all add: ok persist_def written_in_place_def write_index_def save_meta_def Let_def)
qed

lemma ex_create_index:
  "create_index lexical_path env_ok (ex_create ''my index'') ex_no_files =
     (ex_created_files, Inr ex_created_response)"
  by (simp add: create_index_def ex_resolve_create persist_def write_index_def save_meta_def
      new_index_def env_ok_def ex_no_files_def ex_created_files_def ex_created_response_def Let_def)
     (simp add: ex_create_def)

section \<open>Properties of the content listing\<close>















section \<open>The claims\<close>

text \<open>
  C1, the consistency invariant. When an upsert succeeds on a location whose sidecar keys
  are exactly the stringified ids of the vector index, the same holds afterwards: the
  set of ids in the written index equals the set of ids (record keys) in the written
  sidecar.
\<close>

theorem upsert_keeps_id_sets_equal:
  assumes "upsert_items nrm env fs items = (fs', Inr r)"
    and "record_keys fs = str_int ` vector_ids fs"
  shows "record_keys fs' = str_int ` vector_ids fs'"
proof -
  obtain index meta metric records where
    i: "index_file fs = IndexFile index" and
    m: "load_meta (meta_file fs) = Inr meta" and
    r: "map_of meta ''records'' = Some (JObj records)" and
    i': "index_file fs' = IndexFile (upsert_index nrm metric items index)" and
    m': "meta_file fs' =
       MetaFile (JObj (upsert_meta (upsert_records items records) (idx_d index) metric meta))"
    using upsert_items_success [OF assms(1)] by blast
  have before: "fst ` set records = str_int ` fst ` set (idx_rows index)"
    using assms(2) i stored_records_before [OF m r]
    by (simp add: record_keys_def vector_ids_def stored_index_def)
  have "record_keys fs' = fst ` set records \<union> (\<lambda>item. str_int (item_id item)) ` set items"
    using stored_records_after [OF m'] by (simp add: record_keys_def keys_upsert_records)
  moreover have "vector_ids fs' = fst ` set (idx_rows index) \<union> item_id ` set items"
    using i' by (simp add: vector_ids_def stored_index_def ids_upsert_index)
  ultimately show ?thesis using before by (auto simp: image_Un)
qed

theorem upsert_keeps_id_sets_equal_witness:
  "upsert_items (\<lambda>v. v) env_ok ex_files ex_batch = (ex_files_after, Inr ex_response) \<and>
   record_keys ex_files = str_int ` vector_ids ex_files \<and>
   record_keys ex_files_after = str_int ` vector_ids ex_files_after"
  using upsert_keeps_id_sets_equal [OF ex_upsert ex_keys] ex_upsert ex_keys by simp

text \<open>
  C2, as the code has it. The upsert and the creation write both files in place, there
  is no temporary file and no rename. Whenever the request would succeed with both
  writes complete, the outcome of the writes alone decides what is left: an index file
  that cannot be opened leaves both files as found and the request fails; an index write
  that is interrupted leaves a truncated index file and the sidecar as found; after a
  complete index write the new index file stays, and the sidecar is as found when it
  cannot be opened and truncated when its write is interrupted, the request failing in
  both cases.
\<close>

theorem persist_in_place:
  "(upsert_items nrm env_ok fs items = (fs_ok, Inr r) \<longrightarrow>
      upsert_items nrm env fs items = written_in_place env fs fs_ok r) \<and>
   (create_index resolve env_ok payload cfs = (cfs_ok, Inr cr) \<longrightarrow>
      create_index resolve env payload cfs = written_in_place env cfs cfs_ok cr)"
proof (intro conjI impI)
  assume a: "upsert_items nrm env_ok fs items = (fs_ok, Inr r)"
  from upsert_items_any_env [OF a]
  obtain index meta response where
    p: "\<forall>env. upsert_items nrm env fs items = persist env fs index meta response"
    by blast
  then have "persist env_ok fs index meta response = (fs_ok, Inr r)" using a by simp
  then show "upsert_items nrm env fs items = written_in_place env fs fs_ok r"
    using p by (simp add: persist_written_in_place)
next
  assume a: "create_index resolve env_ok payload cfs = (cfs_ok, Inr cr)"
  from create_index_any_env [OF a]
  obtain index meta response where
    p: "\<forall>env. create_index resolve env payload cfs = persist env cfs index meta response"
    by blast
  then have "persist env_ok cfs index meta response = (cfs_ok, Inr cr)" using a by simp
  then show "create_index resolve env payload cfs = written_in_place env cfs cfs_ok cr"
    using p by (simp add: persist_written_in_place)
qed

theorem persist_in_place_witness:
  "upsert_items (\<lambda>v. v) env_ok ex_files ex_batch = (ex_files_after, Inr ex_response) \<and>
   upsert_items (\<lambda>v. v) env_index_interrupted ex_files ex_batch =
     (\<lparr>index_file = BadIndexFile, meta_file = meta_file ex_files\<rparr>, Inl IOError) \<and>
   upsert_items (\<lambda>v. v) env_meta_not_opened ex_files ex_batch =
     (\<lparr>index_file = index_file ex_files_after, meta_file = meta_file ex_files\<rparr>,
      Inl (Uncaught OSError)) \<and>
   create_index lexical_path env_ok (ex_create ''my index'') ex_no_files =
     (ex_created_files, Inr ex_created_response) \<and>
   create_index lexical_path env_meta_interrupted (ex_create ''my index'') ex_no_files =
     (\<lparr>index_file = index_file ex_created_files, meta_file = BadMetaFile\<rparr>,
      Inl (Uncaught OSError)) \<and>
   create_index lexical_path env_not_opened (ex_create ''my index'') ex_no_files =
     (ex_no_files, Inl IOError)"
proof -
  note u = persist_in_place [of "\<lambda>v. v" ex_files ex_batch ex_files_after ex_response _
      lexical_path "ex_create ''my index''" ex_no_files ex_created_files ex_created_response]
  from u [of env_index_interrupted] u [of env_meta_not_opened] u [of env_meta_interrupted]
    u [of env_not_opened] ex_upsert ex_create_index
  show ?thesis
    by (simp add: written_in_place_def env_index_interrupted_def env_meta_not_opened_def
        env_meta_interrupted_def env_not_opened_def ex_files_def)
qed

text \<open>
  C2 as stated fails: a write that is interrupted after the target was opened leaves a
  truncated file in place of the prior one, for the sidecar (\<open>write_text\<close>) as for
  the index file (\<open>faiss.write_index\<close>).
\<close>

theorem interrupted_write_counterexample:
  "upsert_items (\<lambda>v. v) env_meta_interrupted ex_files ex_batch =
     (\<lparr>index_file = index_file ex_files_after, meta_file = BadMetaFile\<rparr>, Inl (Uncaught OSError)) \<and>
   meta_file ex_files \<noteq> BadMetaFile \<and>
   upsert_items (\<lambda>v. v) env_index_interrupted ex_files ex_batch =
     (\<lparr>index_file = BadIndexFile, meta_file = meta_file ex_files\<rparr>, Inl IOError) \<and>
   index_file ex_files \<noteq> BadIndexFile"
  by (simp add: upsert_eval env_meta_interrupted_def env_index_interrupted_def ex_files_def
      ex_batch_def ex_files_after_def)

text \<open>
  C3. A batch whose vectors have different lengths, sent to the four-dimensional index:
  \<open>np.array\<close> raises \<open>ValueError\<close> at line 260, before the guard of lines 261 to
  265 that answers \<open>DimensionMismatch\<close>, so an uncaught exception leaves the handler
  (both files unchanged). The answer is not \<open>DimensionMismatch\<close> naming the dimension
  4 and the length 3 of the first offending item.
\<close>

theorem ragged_batch_value_error:
  "upsert_items (\<lambda>v. v) env_ok ex_files ex_ragged_batch = (ex_files, Inl (Uncaught ValueError)) \<and>
   upsert_items (\<lambda>v. v) env_ok ex_files ex_ragged_batch
     \<noteq> (ex_files, Inl (DimensionMismatch 4 (Some 3)))"
  by (simp add: upsert_eval env_ok_def ex_files_def ex_ragged_batch_def)

text \<open>
  C4, duplicate rejection. A batch in which an id occurs twice is refused by
  \<open>validate_items\<close> with \<open>DuplicateId\<close>, and the endpoint then leaves both files
  as they were; a batch with pairwise distinct ids passes the validator unchanged.
\<close>

theorem duplicate_ids_rejected:
  "(\<not> distinct (map item_id items) \<longrightarrow>
      validate_items items = Inl DuplicateId \<and>
      upsert_endpoint nrm env fs items = (fs, Inl DuplicateId)) \<and>
   (distinct (map item_id items) \<longrightarrow> validate_items items = Inr items)"
proof (intro conjI impI)
  assume d: "\<not> distinct (map item_id items)"
  then show v: "validate_items items = Inl DuplicateId"
    using card_set_length_iff [of "map item_id items"] by (simp add: validate_items_def Let_def)
  from d have "items \<noteq> []" by auto
  with v show "upsert_endpoint nrm env fs items = (fs, Inl DuplicateId)"
    by (simp add: upsert_endpoint_def validate_request_def)
next
  assume "distinct (map item_id items)"
  then show "validate_items items = Inr items"
    using card_set_length_iff [of "map item_id items"] by (simp add: validate_items_def Let_def)
qed

theorem duplicate_ids_rejected_witness:
  "\<not> distinct (map item_id ex_duplicate_batch) \<and>
   validate_items ex_duplicate_batch = Inl DuplicateId \<and>
   upsert_endpoint (\<lambda>v. v) env_ok ex_files ex_duplicate_batch = (ex_files, Inl DuplicateId) \<and>
   distinct (map item_id ex_batch) \<and> validate_items ex_batch = Inr ex_batch"
proof -
  have a: "\<not> distinct (map item_id ex_duplicate_batch)" by (simp add: ex_duplicate_batch_def)
  have b: "distinct (map item_id ex_batch)" by (simp add: ex_batch_def)
  show ?thesis
    using duplicate_ids_rejected [of ex_duplicate_batch "\<lambda>v. v" env_ok ex_files]
      duplicate_ids_rejected [of ex_batch "\<lambda>v. v" env_ok ex_files] a b
    by simp
qed

text \<open>
  C5, as the code has it. \<open>_safe_db_name\<close> fails with \<open>InvalidName\<close> exactly when
  the name has no ASCII letter or digit. Otherwise it returns the name with every
  maximal run of characters outside \<open>[a-zA-Z0-9._-]\<close> replaced by one \<open>-\<close> and the
  leading and trailing \<open>.\<close>, \<open>-\<close>, \<open>_\<close> stripped: the result has only characters
  of the class, begins and ends with a letter or digit, and keeps the letters and digits
  of the name in their order. \<open>_resolve_create_db_path\<close> fails with \<open>InvalidName\<close>
  for a non-empty name without letter or digit, and otherwise (when the joined path
  resolves to itself) names the file by the sanitized name with the extension
  \<open>.faiss\<close> forced: appended when the sanitized name has no dot, kept when the name
  ends in \<open>.faiss\<close>, and put in place of the part from the last dot on otherwise.
\<close>

theorem safe_db_name_sanitizes:
  "(safe_db_name name = Inl InvalidName \<longleftrightarrow> (\<forall>c \<in> set name. \<not> is_alnum c)) \<and>
   (safe_db_name name = Inr r \<longrightarrow>
      r = py_strip separator (re_sub_unsafe (py_strip py_isspace name)) \<and>
      (\<forall>c \<in> set r. name_char c) \<and> is_alnum (hd r) \<and> is_alnum (last r) \<and>
      filter is_alnum r = filter is_alnum name) \<and>
   ((\<forall>c \<in> set xs. name_char c) \<and> bad \<noteq> [] \<and> (\<forall>c \<in> set bad. \<not> name_char c) \<and>
    (ys = [] \<or> name_char (hd ys)) \<longrightarrow>
      re_sub_unsafe (xs @ bad @ ys) = xs @ CHR ''-'' # re_sub_unsafe ys) \<and>
   (cq_db_path payload = None \<and> cq_base_dir payload = Some base_dir \<and> base_dir \<noteq> [] \<and>
    cq_db_name payload = Some name \<and> name \<noteq> [] \<and> (\<forall>c \<in> set name. \<not> is_alnum c) \<longrightarrow>
      resolve_create_db_path resolve payload = Inl InvalidName) \<and>
   (cq_db_path payload = None \<and> cq_base_dir payload = Some base_dir \<and> base_dir \<noteq> [] \<and>
    cq_db_name payload = Some name \<and> safe_db_name name = Inr r \<and>
    resolve (path_str \<lparr>path_parent = path_str (resolve base_dir), path_name = r\<rparr>) =
      \<lparr>path_parent = d, path_name = r\<rparr> \<longrightarrow>
      (CHR ''.'' \<notin> set r \<longrightarrow>
         resolve_create_db_path resolve payload =
           Inr \<lparr>path_parent = d, path_name = r @ ''.faiss''\<rparr>) \<and>
      (r = stem @ ''.faiss'' \<longrightarrow>
         resolve_create_db_path resolve payload = Inr \<lparr>path_parent = d, path_name = r\<rparr>) \<and>
      (r = stem @ CHR ''.'' # ext \<and> CHR ''.'' \<notin> set ext \<and> ext \<noteq> ''faiss'' \<longrightarrow>
         resolve_create_db_path resolve payload =
           Inr \<lparr>path_parent = d, path_name = stem @ ''.faiss''\<rparr>))"
proof (intro conjI impI)
  show "safe_db_name name = Inl InvalidName \<longleftrightarrow> (\<forall>c \<in> set name. \<not> is_alnum c)"
    by (rule safe_db_name_Inl_iff)
next
  assume a: "safe_db_name name = Inr r"
  show "r = py_strip separator (re_sub_unsafe (py_strip py_isspace name))"
    "\<forall>c \<in> set r. name_char c" "is_alnum (hd r)" "is_alnum (last r)"
    "filter is_alnum r = filter is_alnum name"
    using safe_db_name_Inr [OF a] by blast+
next
  assume "(\<forall>c \<in> set xs. name_char c) \<and> bad \<noteq> [] \<and> (\<forall>c \<in> set bad. \<not> name_char c) \<and>
    (ys = [] \<or> name_char (hd ys))"
  then show "re_sub_unsafe (xs @ bad @ ys) = xs @ CHR ''-'' # re_sub_unsafe ys"
    by (intro re_sub_unsafe_run) auto
next
  assume a: "cq_db_path payload = None \<and> cq_base_dir payload = Some base_dir \<and> base_dir \<noteq> [] \<and>
    cq_db_name payload = Some name \<and> name \<noteq> [] \<and> (\<forall>c \<in> set name. \<not> is_alnum c)"
  then have "safe_db_name name = Inl InvalidName" by (simp add: safe_db_name_Inl_iff)
  with a show "resolve_create_db_path resolve payload = Inl InvalidName"
    by (simp add: resolve_create_db_path_def given_def)
next
  assume a: "cq_db_path payload = None \<and> cq_base_dir payload = Some base_dir \<and> base_dir \<noteq> [] \<and>
    cq_db_name payload = Some name \<and> safe_db_name name = Inr r \<and>
    resolve (path_str \<lparr>path_parent = path_str (resolve base_dir), path_name = r\<rparr>) =
      \<lparr>path_parent = d, path_name = r\<rparr>"
  then have s: "safe_db_name name = Inr r" by simp
  have n: "resolve_create_db_path resolve payload =
      (if path_suffix r \<noteq> ''.faiss'' then with_suffix \<lparr>path_parent = d, path_name = r\<rparr> ''.faiss''
       else Inr \<lparr>path_parent = d, path_name = r\<rparr>)"
    using a resolve_create_sanitized [of payload base_dir name r resolve]
    by (simp add: normalize_db_path_def Let_def)
  have ne: "r \<noteq> []" and h: "is_alnum (hd r)" and l: "is_alnum (last r)"
    using safe_db_name_Inr [OF s] by blast+
  {
    assume "CHR ''.'' \<notin> set r"
    then show "resolve_create_db_path resolve payload =
           Inr \<lparr>path_parent = d, path_name = r @ ''.faiss''\<rparr>"
      using n ne by (simp add: path_suffix_no_dot with_suffix_def)
  }
  {
    assume e: "r = stem @ ''.faiss''"
    have "stem \<noteq> []" using e h alnum_not_dot [of "hd r"] by (cases stem) auto
    then have "path_suffix r = ''.faiss''"
      using path_suffix_split [of stem "''faiss''"] e by simp
    then show "resolve_create_db_path resolve payload = Inr \<lparr>path_parent = d, path_name = r\<rparr>"
      using n by simp
  }
  {
    assume e: "r = stem @ CHR ''.'' # ext \<and> CHR ''.'' \<notin> set ext \<and> ext \<noteq> ''faiss''"
    have "stem \<noteq> []" using e h alnum_not_dot [of "hd r"] by (cases stem) auto
    moreover have "ext \<noteq> []" using e l alnum_not_dot [of "last r"] by auto
    ultimately have "path_suffix r = CHR ''.'' # ext"
      using path_suffix_split [of stem ext] e by simp
    then show "resolve_create_db_path resolve payload =
           Inr \<lparr>path_parent = d, path_name = stem @ ''.faiss''\<rparr>"
      using n ne e by (simp add: with_suffix_def)
  }
qed

theorem safe_db_name_sanitizes_witness:
  "safe_db_name ''  ..my  db!v2.. '' = Inr ''my-db-v2'' \<and>
   safe_db_name '' ._- '' = Inl InvalidName \<and>
   re_sub_unsafe (''my'' @ ''  '' @ ''db'') = ''my'' @ CHR ''-'' # re_sub_unsafe ''db'' \<and>
   resolve_create_db_path lexical_path (ex_create '' ._- '') = Inl InvalidName \<and>
   resolve_create_db_path lexical_path (ex_create ''my index'') =
     Inr \<lparr>path_parent = ''/data'', path_name = ''my-index.faiss''\<rparr> \<and>
   resolve_create_db_path lexical_path (ex_create ''v1.5'') =
     Inr \<lparr>path_parent = ''/data'', path_name = ''v1.faiss''\<rparr> \<and>
   resolve_create_db_path lexical_path (ex_create ''docs.faiss'') =
     Inr \<lparr>path_parent = ''/data'', path_name = ''docs.faiss''\<rparr>"
proof -
  have a: "safe_db_name ''  ..my  db!v2.. '' = Inr ''my-db-v2''" by (simp add: name_eval)
  have b: "\<forall>c \<in> set '' ._- ''. \<not> is_alnum c" by (simp add: is_alnum_def)
  have c: "(\<forall>c \<in> set ''my''. name_char c) \<and> ''  '' \<noteq> [] \<and> (\<forall>c \<in> set ''  ''. \<not> name_char c) \<and>
    (''db'' = [] \<or> name_char (hd ''db''))" by (simp add: name_char_def is_alnum_def)
  have p: "cq_db_path (ex_create n) = None" "cq_base_dir (ex_create n) = Some ''/data''"
    "cq_db_name (ex_create n) = Some n" for n
    by (simp_all add: ex_create_def)
  have s: "safe_db_name ''my index'' = Inr ''my-index''" "safe_db_name ''v1.5'' = Inr ''v1.5''"
    "safe_db_name ''docs.faiss'' = Inr ''docs.faiss''"
    by (simp_all add: name_eval)
  have r: "lexical_path (path_str \<lparr>path_parent = path_str (lexical_path ''/data''), path_name = n\<rparr>)
      = \<lparr>path_parent = ''/data'', path_name = n\<rparr>"
    if "n = ''my-index'' \<or> n = ''v1.5'' \<or> n = ''docs.faiss''" for n
    using that by (auto simp: lexical_path_def path_str_def)
  note t = safe_db_name_sanitizes [of _ _ "''my''" "''  ''" "''db''" _ "''/data''" lexical_path "''/data''"]
  from t [of "''  ..my  db!v2.. ''" "''my-db-v2''" "ex_create '' ._- ''" "''''" "''''"]
    t [of "'' ._- ''" "''''" "ex_create '' ._- ''" "''''" "''''"]
    t [of "''my index''" "''my-index''" "ex_create ''my index''" "''''" "''''"]
    t [of "''v1.5''" "''v1.5''" "ex_create ''v1.5''" "''v1''" "''5''"]
    t [of "''docs.faiss''" "''docs.faiss''" "ex_create ''docs.faiss''" "''docs''" "''''"]
    a b c p s r
  show ?thesis by simp
qed

text \<open>
  C5 as stated fails: the characters outside the class are not removed, each run of them
  is replaced by \<open>-\<close>, and the file is not named by the sanitized name itself. For
  \<open>my index\<close> the code names the file \<open>my-index.faiss\<close> where the claim's
  sanitization gives \<open>myindex\<close>; for \<open>v1.5\<close> it names the file \<open>v1.faiss\<close>.
\<close>

theorem safe_db_name_counterexample:
  "safe_db_name ''my index'' = Inr ''my-index'' \<and>
   spec_safe_db_name ''my index'' = Inr ''myindex'' \<and>
   resolve_create_db_path lexical_path (ex_create ''my index'') =
     Inr \<lparr>path_parent = ''/data'', path_name = ''my-index.faiss''\<rparr> \<and>
   spec_create_file_name ''my index'' = Inr ''myindex'' \<and>
   resolve_create_db_path lexical_path (ex_create ''v1.5'') =
     Inr \<lparr>path_parent = ''/data'', path_name = ''v1.faiss''\<rparr> \<and>
   spec_create_file_name ''v1.5'' = Inr ''v1.5''"
  by (simp add: path_eval name_eval spec_create_file_name_def)



text \<open>
  C7, idempotence. When an upsert of a batch with pairwise distinct ids succeeds, the
  same batch applied to the resulting files succeeds with the same response (the same
  \<open>total\<close>) and leaves exactly the same index file and sidecar.
\<close>

theorem upsert_idempotent:
  assumes dist: "distinct (map item_id items)"
    and u: "upsert_items nrm env fs items = (fs1, Inr r)"
  shows "upsert_items nrm env fs1 items = (fs1, Inr r)"
proof -
  obtain index meta metric records where
    c: "resolve_metric meta = Inr metric" and
    s: "np_array_shape (map item_vector items) = Inr (Some (idx_d index))" and
    o: "list_all in_int64 (map item_id items)" and
    w: "index_write env = Written" "meta_write env = Written" and
    i1: "index_file fs1 = IndexFile (upsert_index nrm metric items index)" and
    m1: "meta_file fs1 =
       MetaFile (JObj (upsert_meta (upsert_records items records) (idx_d index) metric meta))" and
    r: "r = \<lparr>up_upserted = length items,
             up_total = ntotal (upsert_index nrm metric items index),
             up_dimension = idx_d index, up_metric = metric\<rparr>"
    using upsert_items_success [OF u] by blast
  let ?index1 = "upsert_index nrm metric items index"
  let ?records1 = "upsert_records items records"
  let ?meta1 = "upsert_meta ?records1 (idx_d index) metric meta"
  have l: "load_meta (meta_file fs1) = Inr ?meta1"
    using m1 by (simp add: load_upsert_meta)
  have c1: "resolve_metric ?meta1 = Inr metric"
    using resolve_metric_range [OF c] by (rule resolve_metric_upsert_meta)
  have g: "dict_get ?meta1 ''records'' (JObj []) = JObj ?records1"
    by (simp add: dict_get_def map_of_upsert_meta)
  have "upsert_items nrm env fs1 items =
          persist env fs1 (upsert_index nrm metric items ?index1)
            (upsert_meta (upsert_records items ?records1) (idx_d ?index1) metric ?meta1)
            \<lparr>up_upserted = length items,
             up_total = ntotal (upsert_index nrm metric items ?index1),
             up_dimension = idx_d ?index1, up_metric = metric\<rparr>"
    using i1 l c1 g s o by (simp add: upsert_items_def idx_d_upsert_index)
  also have "\<dots> = persist env fs1 ?index1 ?meta1 r"
    using r by (simp add: upsert_index_twice upsert_records_twice [OF dist] upsert_meta_twice
        idx_d_upsert_index)
  also have "\<dots> = (fs1, Inr r)"
    using w i1 m1 by (simp add: persist_def write_index_def save_meta_def)
  finally show ?thesis .
qed

theorem upsert_idempotent_witness:
  "distinct (map item_id ex_batch) \<and>
   upsert_items (\<lambda>v. v) env_ok ex_files ex_batch = (ex_files_after, Inr ex_response) \<and>
   upsert_items (\<lambda>v. v) env_ok ex_files_after ex_batch = (ex_files_after, Inr ex_response)"
proof -
  have d: "distinct (map item_id ex_batch)" by (simp add: ex_batch_def)
  from upsert_idempotent [OF d ex_upsert] d ex_upsert show ?thesis by simp
qed




text \<open>
  C9, as the code has it. \<open>_load_meta\<close> answers the default when the sidecar does
  not exist, fails with \<open>CorruptMetadata\<close> when the sidecar does not parse or parses to
  something that is not an object, answers the stored object when its \<open>records\<close>
  entry is an object, and otherwise answers the stored object with \<open>records\<close> set to
  the empty object.
\<close>

theorem load_meta_cases:
  "load_meta NoMetaFile =
     (Inr [(''records'', JObj []), (''dimension'', JNull), (''metric'', JStr ''cosine'')]
        :: error + 'f dict) \<and>
   load_meta BadMetaFile = (Inl CorruptMetadata :: error + 'f dict) \<and>
   ((\<forall>kvs. data \<noteq> JObj kvs) \<longrightarrow>
      load_meta (MetaFile data) = (Inl CorruptMetadata :: error + 'f dict)) \<and>
   ((\<exists>recs. map_of kvs ''records'' = Some (JObj recs)) \<longrightarrow>
      load_meta (MetaFile (JObj kvs)) = (Inr kvs :: error + 'f dict)) \<and>
   (\<not> (\<exists>recs. map_of kvs ''records'' = Some (JObj recs)) \<longrightarrow>
      load_meta (MetaFile (JObj kvs)) = Inr (AList.update ''records'' (JObj []) kvs))"
  by (cases data) (auto simp: load_meta_def default_meta_def split: option.splits json.splits)

theorem load_meta_cases_witness:
  "load_meta (MetaFile (JArr [])) = (Inl CorruptMetadata :: error + int dict) \<and>
   load_meta (MetaFile (JObj [(''records'', JObj []), (''dimension'', JInt 4)])) =
     (Inr [(''records'', JObj []), (''dimension'', JInt 4)] :: error + int dict) \<and>
   load_meta (MetaFile (JObj [(''dimension'', JInt 4)])) =
     (Inr [(''dimension'', JInt 4), (''records'', JObj [])] :: error + int dict)"
proof -
  have a: "\<forall>kvs. (JArr [] :: int json) \<noteq> JObj kvs" by simp
  have b: "\<exists>recs. map_of [(''records'', JObj []), (''dimension'', JInt 4 :: int json)] ''records''
             = Some (JObj recs)" by simp
  have c: "\<not> (\<exists>recs. map_of [(''dimension'', JInt 4 :: int json)] ''records'' = Some (JObj recs))"
    by simp
  from load_meta_cases [of "JArr [] :: int json" "[(''records'', JObj []), (''dimension'', JInt 4 :: int json)]"]
    load_meta_cases [of "JArr [] :: int json" "[(''dimension'', JInt 4 :: int json)]"] a b c
  show ?thesis by simp
qed

text \<open>
  C9 as stated fails: a sidecar that parses, with a \<open>records\<close> entry that is not an
  object, is neither returned as stored nor refused; its records are silently reset to
  the empty object.
\<close>

theorem records_reset_counterexample:
  "load_meta (meta_file ex_meta_no_records) =
     Inr [(''records'', JObj []), (''dimension'', JInt 4), (''metric'', JStr ''l2'')] \<and>
   load_meta (meta_file ex_meta_no_records) \<noteq>
     Inr [(''records'', JArr [JInt 7]), (''dimension'', JInt 4), (''metric'', JStr ''l2'')] \<and>
   load_meta (meta_file ex_meta_no_records) \<noteq> Inl CorruptMetadata"
  by (simp add: load_meta_def ex_meta_no_records_def)

text \<open>
  C10, the frame of an upsert. After a successful upsert, every id that does not occur
  in the batch has the vector it had before (as \<open>reconstruct\<close> finds it) and the record
  it had before under its key.
\<close>

theorem upsert_frame:
  assumes "upsert_items nrm env fs items = (fs', Inr r)"
    and "j \<notin> item_id ` set items"
  shows "stored_vector fs' j = stored_vector fs j \<and> stored_record fs' j = stored_record fs j"
proof -
  obtain index meta metric records where
    i: "index_file fs = IndexFile index" and
    m: "load_meta (meta_file fs) = Inr meta" and
    r: "map_of meta ''records'' = Some (JObj records)" and
    i': "index_file fs' = IndexFile (upsert_index nrm metric items index)" and
    m': "meta_file fs' =
       MetaFile (JObj (upsert_meta (upsert_records items records) (idx_d index) metric meta))"
    using upsert_items_success [OF assms(1)] by blast
  have "stored_vector fs' j = stored_vector fs j"
    using i i' reconstruct_upsert_index [OF assms(2)]
    by (simp add: stored_vector_def stored_index_def)
  moreover have "str_int j \<notin> (\<lambda>item. str_int (item_id item)) ` set items"
    using assms(2) by (auto simp: str_int_inj)
  then have "stored_record fs' j = stored_record fs j"
    using stored_records_after [OF m'] stored_records_before [OF m r]
    by (simp add: stored_record_def map_of_upsert_records_other)
  ultimately show ?thesis by simp
qed

theorem upsert_frame_witness:
  "1 \<notin> item_id ` set ex_batch \<and>
   stored_vector ex_files_after 1 = Some [1, 0, 0, 0] \<and>
   stored_vector ex_files 1 = Some [1, 0, 0, 0] \<and>
   stored_record ex_files_after 1 = stored_record ex_files 1"
proof -
  have n: "1 \<notin> item_id ` set ex_batch" by (simp add: ex_batch_def)
  have v: "stored_vector ex_files 1 = Some [1, 0, 0, 0]"
    by (simp add: stored_vector_def stored_index_def reconstruct_def ex_files_def)
  from upsert_frame [OF ex_upsert n] n v show ?thesis by simp
qed

end
